theory Spec2Isabelle
  imports Complex_Main "HOL-Library.Monad_Syntax"
begin

section \<open>Data model (mesh/types.ts)\<close>

text \<open>
  The numbers of the TypeScript code and of the shader are IEEE floats. They are modelled
  as real numbers: rounding and overflow of the finite range are outside the model. The
  values that exact arithmetic itself cannot produce (the result of a division by zero,
  or of a read past the end of an array) are made explicit: an operation that would
  give NaN or an infinity returns \<open>None\<close>.
\<close>

datatype vec3 = Vec3 (vx: real) (vy: real) (vz: real)

record BoundingBox =
  box_min :: vec3
  box_max :: vec3

text \<open>
  A mesh: the flat vertex array (a \<open>Float32Array\<close>), the flat index array (a
  \<open>Uint32Array\<close>, so every entry is below \<open>2 ^ 32\<close>), and the two derived fields, which
  a caller may set freely since \<open>Mesh\<close> is a plain interface.
\<close>

record Mesh =
  vertices :: "real list"
  indices :: "nat list"
  triangleCount :: real
  bounds :: BoundingBox

text \<open>
  \<open>computeBounds\<close>: fewer than three floats give the zero box. Otherwise the first
  vertex initialises both corners and the loop \<open>for (i = 3; i < length; i += 3)\<close> folds
  every further vertex in. A read past the end of the array is \<open>undefined\<close> in
  JavaScript, and \<open>Math.min\<close>/\<open>Math.max\<close> of \<open>undefined\<close> is NaN, which then stays in
  the component: the model returns \<open>None\<close> for a box with a NaN component.
\<close>

function bounds_loop :: "real list \<Rightarrow> nat \<Rightarrow> vec3 \<Rightarrow> vec3 \<Rightarrow> BoundingBox option" where
  "bounds_loop vs i mn mx =
     (if i < length vs then
        (if i + 2 < length vs then
           bounds_loop vs (i + 3)
             (Vec3 (min (vx mn) (vs ! i)) (min (vy mn) (vs ! (i + 1))) (min (vz mn) (vs ! (i + 2))))
             (Vec3 (max (vx mx) (vs ! i)) (max (vy mx) (vs ! (i + 1))) (max (vz mx) (vs ! (i + 2))))
         else None)
      else Some \<lparr>box_min = mn, box_max = mx\<rparr>)"
  by pat_completeness auto
termination
  by (relation "measure (\<lambda>(vs, i, mn, mx). length vs - i)") auto

declare bounds_loop.simps [simp del]

definition computeBounds :: "real list \<Rightarrow> BoundingBox option" where
  "computeBounds vs =
     (if length vs < 3 then Some \<lparr>box_min = Vec3 0 0 0, box_max = Vec3 0 0 0\<rparr>
      else bounds_loop vs 3 (Vec3 (vs ! 0) (vs ! 1) (vs ! 2)) (Vec3 (vs ! 0) (vs ! 1) (vs ! 2)))"

definition boundsCenter :: "BoundingBox \<Rightarrow> vec3" where
  "boundsCenter b =
     Vec3 ((vx (box_min b) + vx (box_max b)) / 2)
          ((vy (box_min b) + vy (box_max b)) / 2)
          ((vz (box_min b) + vz (box_max b)) / 2)"

definition boundsSize :: "BoundingBox \<Rightarrow> vec3" where
  "boundsSize b =
     Vec3 (vx (box_max b) - vx (box_min b))
          (vy (box_max b) - vy (box_min b))
          (vz (box_max b) - vz (box_min b))"

text \<open>The \<open>c\<close>-th coordinate (0, 1 or 2) of every vertex of a flat vertex array.\<close>

definition coords :: "nat \<Rightarrow> real list \<Rightarrow> real list" where
  "coords c vs = map (\<lambda>k. vs ! (3 * k + c)) [0..<length vs div 3]"

section \<open>The distance kernel (shaders/mesh-distance.wgsl)\<close>

subsection \<open>Vector arithmetic of the shading language\<close>

definition add3 :: "vec3 \<Rightarrow> vec3 \<Rightarrow> vec3" where
  "add3 a b = Vec3 (vx a + vx b) (vy a + vy b) (vz a + vz b)"

definition sub3 :: "vec3 \<Rightarrow> vec3 \<Rightarrow> vec3" where
  "sub3 a b = Vec3 (vx a - vx b) (vy a - vy b) (vz a - vz b)"

definition scale3 :: "real \<Rightarrow> vec3 \<Rightarrow> vec3" where
  "scale3 c a = Vec3 (c * vx a) (c * vy a) (c * vz a)"

definition mul3 :: "vec3 \<Rightarrow> vec3 \<Rightarrow> vec3" where
  "mul3 a b = Vec3 (vx a * vx b) (vy a * vy b) (vz a * vz b)"

definition dot :: "vec3 \<Rightarrow> vec3 \<Rightarrow> real" where
  "dot a b = vx a * vx b + vy a * vy b + vz a * vz b"

definition cross :: "vec3 \<Rightarrow> vec3 \<Rightarrow> vec3" where
  "cross a b =
     Vec3 (vy a * vz b - vz a * vy b) (vz a * vx b - vx a * vz b) (vx a * vy b - vy a * vx b)"

definition length3 :: "vec3 \<Rightarrow> real" where
  "length3 a = sqrt (dot a a)"

text \<open>Division: a zero divisor gives an infinity or NaN, here \<open>None\<close>.\<close>

definition fdiv :: "real \<Rightarrow> real \<Rightarrow> real option" where
  "fdiv a b = (if b = 0 then None else Some (a / b))"

definition div3 :: "vec3 \<Rightarrow> real \<Rightarrow> vec3 option" where
  "div3 a c = do {
     qx \<leftarrow> fdiv (vx a) c;
     qy \<leftarrow> fdiv (vy a) c;
     qz \<leftarrow> fdiv (vz a) c;
     Some (Vec3 qx qy qz)
   }"

definition normalize3 :: "vec3 \<Rightarrow> vec3 option" where
  "normalize3 a = div3 a (length3 a)"

text \<open>
  The conversion \<open>u32(f)\<close> of a float: truncation towards zero, clamped to the range of
  an unsigned 32-bit integer.
\<close>

definition u32 :: "real \<Rightarrow> nat" where
  "u32 r = (if r \<le> 0 then 0 else min (nat \<lfloor>r\<rfloor>) (2 ^ 32 - 1))"

subsection \<open>Reading the mesh buffers\<close>

text \<open>
  A read past the end of a storage buffer gives a value the shading language does not
  determine; the model returns \<open>None\<close> for it. Index arithmetic is unsigned 32-bit and
  wraps.
\<close>

definition buffer_read :: "'a list \<Rightarrow> nat \<Rightarrow> 'a option" where
  "buffer_read buf i = (if i < length buf then Some (buf ! i) else None)"

definition get_vertex :: "real list \<Rightarrow> nat \<Rightarrow> vec3 option" where
  "get_vertex verts idx = (let base = (idx * 3) mod 2 ^ 32 in do {
     a \<leftarrow> buffer_read verts base;
     b \<leftarrow> buffer_read verts ((base + 1) mod 2 ^ 32);
     c \<leftarrow> buffer_read verts ((base + 2) mod 2 ^ 32);
     Some (Vec3 a b c)
   })"

definition get_triangle :: "real list \<Rightarrow> nat list \<Rightarrow> nat \<Rightarrow> (vec3 \<times> vec3 \<times> vec3) option" where
  "get_triangle verts inds tri_idx = (let base = (tri_idx * 3) mod 2 ^ 32 in do {
     i0 \<leftarrow> buffer_read inds base;
     i1 \<leftarrow> buffer_read inds ((base + 1) mod 2 ^ 32);
     i2 \<leftarrow> buffer_read inds ((base + 2) mod 2 ^ 32);
     v0 \<leftarrow> get_vertex verts i0;
     v1 \<leftarrow> get_vertex verts i1;
     v2 \<leftarrow> get_vertex verts i2;
     Some (v0, v1, v2)
   })"

subsection \<open>Unsigned distance and sign\<close>

text \<open>
  The determinant of the 2x2 normal equations of the triangle, the quantity the
  degenerate-triangle test of \<open>point_triangle_distance\<close> looks at. Here it is the exact
  one; the shader compares its single-precision value, which differs from it by
  rounding where the products exceed 24 bits.
\<close>

definition denom :: "vec3 \<Rightarrow> vec3 \<Rightarrow> vec3 \<Rightarrow> real" where
  "denom v0 v1 v2 = (let e0 = sub3 v1 v0; e1 = sub3 v2 v0 in
     dot e0 e0 * dot e1 e1 - dot e0 e1 * dot e0 e1)"

definition point_triangle_distance :: "vec3 \<Rightarrow> vec3 \<Rightarrow> vec3 \<Rightarrow> vec3 \<Rightarrow> real option" where
  "point_triangle_distance p v0 v1 v2 =
    (let e0 = sub3 v1 v0;
         e1 = sub3 v2 v0;
         v = sub3 p v0;
         d00 = dot e0 e0;
         d01 = dot e0 e1;
         d11 = dot e1 e1;
         d20 = dot v e0;
         d21 = dot v e1;
         dn = d00 * d11 - d01 * d01
     in if \<bar>dn\<bar> < 1 / 10 ^ 10 then Some (length3 (sub3 p v0))
        else do {
          s0 \<leftarrow> fdiv (d11 * d20 - d01 * d21) dn;
          t0 \<leftarrow> fdiv (d00 * d21 - d01 * d20) dn;
          let s1 = (if s0 < 0 then 0 else s0);
          let t1 = (if t0 < 0 then 0 else t0);
          (s2, t2) \<leftarrow> (if s1 + t1 > 1
                       then do { sc \<leftarrow> fdiv 1 (s1 + t1); Some (s1 * sc, t1 * sc) }
                       else Some (s1, t1));
          let closest = add3 (add3 v0 (scale3 s2 e0)) (scale3 t2 e1);
          Some (length3 (sub3 p closest))
        })"

definition triangle_normal :: "vec3 \<Rightarrow> vec3 \<Rightarrow> vec3 \<Rightarrow> vec3 option" where
  "triangle_normal v0 v1 v2 = normalize3 (cross (sub3 v1 v0) (sub3 v2 v0))"

definition compute_sign :: "vec3 \<Rightarrow> vec3 \<Rightarrow> vec3 \<Rightarrow> vec3 \<Rightarrow> real option" where
  "compute_sign p v0 v1 v2 = do {
     normal \<leftarrow> triangle_normal v0 v1 v2;
     center \<leftarrow> div3 (add3 (add3 v0 v1) v2) 3;
     let to_point = sub3 p center;
     Some (sgn (dot normal to_point))
   }"

text \<open>Both functions on a triangle as \<open>get_triangle\<close> returns it.\<close>

definition tri_dist :: "vec3 \<Rightarrow> vec3 \<times> vec3 \<times> vec3 \<Rightarrow> real option" where
  "tri_dist p t = (case t of (v0, v1, v2) \<Rightarrow> point_triangle_distance p v0 v1 v2)"

definition tri_sign :: "vec3 \<Rightarrow> vec3 \<times> vec3 \<times> vec3 \<Rightarrow> real option" where
  "tri_sign p t = (case t of (v0, v1, v2) \<Rightarrow> compute_sign p v0 v1 v2)"

subsection \<open>One invocation of the compute shader\<close>

record Uniforms =
  volume_min :: vec3
  volume_max :: vec3
  uni_resolution :: real
  triangle_count :: real

type_synonym gid = "nat \<times> nat \<times> nat"

text \<open>
  The loop \<open>for (var i = 0u; i < tri_count; i++)\<close> with its two variables \<open>min_dist\<close> and
  \<open>closest_tri\<close>. The counter stays below \<open>tri_count\<close>, itself a \<open>u32\<close>, so \<open>i++\<close> does not
  wrap. A distance that is not a number compares false and leaves the state alone.
\<close>

function tri_loop ::
  "real list \<Rightarrow> nat list \<Rightarrow> vec3 \<Rightarrow> nat \<Rightarrow> nat \<Rightarrow> real \<times> nat \<Rightarrow> (real \<times> nat) option" where
  "tri_loop verts inds p tri_count i (min_dist, closest_tri) =
     (if i < tri_count then
        (case get_triangle verts inds i of
           None \<Rightarrow> None
         | Some (v0, v1, v2) \<Rightarrow>
             (case point_triangle_distance p v0 v1 v2 of
                None \<Rightarrow> tri_loop verts inds p tri_count (i + 1) (min_dist, closest_tri)
              | Some d \<Rightarrow>
                  if d < min_dist then tri_loop verts inds p tri_count (i + 1) (d, i)
                  else tri_loop verts inds p tri_count (i + 1) (min_dist, closest_tri)))
      else Some (min_dist, closest_tri))"
  by pat_completeness auto
termination
  by (relation "measure (\<lambda>(verts, inds, p, tri_count, i, st). tri_count - i)") auto

declare tri_loop.simps [simp del]

text \<open>
  \<open>main\<close> for the invocation \<open>gid\<close>: \<open>None\<close> when the invocation returns at the bounds
  check without writing, \<open>Some c\<close> when it stores \<open>c\<close> into the output texture at \<open>gid\<close>,
  where \<open>c = None\<close> stands for a value that is not a finite number or that the shading
  language does not determine.
\<close>

definition voxel_center :: "Uniforms \<Rightarrow> gid \<Rightarrow> vec3 option" where
  "voxel_center u g = (case g of (gx, gy, gz) \<Rightarrow> do {
     voxel_size \<leftarrow> div3 (sub3 (volume_max u) (volume_min u)) (uni_resolution u);
     Some (add3 (volume_min u)
            (mul3 (Vec3 (real gx + 0.5) (real gy + 0.5) (real gz + 0.5)) voxel_size))
   })"

definition main :: "Uniforms \<Rightarrow> real list \<Rightarrow> nat list \<Rightarrow> gid \<Rightarrow> real option option" where
  "main u verts inds g = (case g of (gx, gy, gz) \<Rightarrow>
     (let resolution = u32 (uni_resolution u) in
      if gx \<ge> resolution \<or> gy \<ge> resolution \<or> gz \<ge> resolution then None
      else Some (do {
        p \<leftarrow> voxel_center u g;
        (min_dist, closest_tri) \<leftarrow>
           tri_loop verts inds p (u32 (triangle_count u)) 0 (10 ^ 10, 0);
        (v0, v1, v2) \<leftarrow> get_triangle verts inds closest_tri;
        s \<leftarrow> compute_sign p v0 v1 v2;
        Some (s * min_dist)
      })))"

section \<open>The conversion (sdf/distance-field.ts)\<close>

record DistanceFieldConfig =
  resolution :: real
  padding :: real

text \<open>
  The argument of the conversion is a \<open>Partial<DistanceFieldConfig>\<close>: each field may be
  absent, and \<open>{ ...DEFAULT_CONFIG, ...config }\<close> fills the absent ones in.
\<close>

record PartialConfig =
  opt_resolution :: "real option"
  opt_padding :: "real option"

definition DEFAULT_CONFIG :: DistanceFieldConfig where
  "DEFAULT_CONFIG = \<lparr>resolution = 64, padding = 0.1\<rparr>"

definition merge_config :: "PartialConfig \<Rightarrow> DistanceFieldConfig" where
  "merge_config c =
     \<lparr>resolution = (case opt_resolution c of None \<Rightarrow> resolution DEFAULT_CONFIG | Some r \<Rightarrow> r),
      padding = (case opt_padding c of None \<Rightarrow> padding DEFAULT_CONFIG | Some q \<Rightarrow> q)\<rparr>"

subsection \<open>The device\<close>

text \<open>
  The WebGPU device is the caller's \<open>ctx\<close>, an object of the browser, so the device is a
  parameter of the model. Every call the conversion makes on it is a \<open>gpu_op\<close>. The two
  helpers of \<open>webgpu/context\<close> are thin wrappers: \<open>createShaderModule\<close> is the device's
  call of that name, and \<open>createBuffer\<close> creates a buffer mapped at creation, copies the
  data into the mapped range and unmaps it; the model takes each as one call, which
  throws when one of its steps does. A backend says which calls throw, and in which
  order it runs the invocations of a dispatch of \<open>n\<close> workgroups per axis. The state of
  the device counts the live resources of each kind and logs the calls that returned.
\<close>

datatype resource = OutputTexture | VertexBuffer | IndexBuffer | UniformBuffer

datatype gpu_op =
    CreateTexture real
  | CreateBuffer resource
  | CreateShaderModule
  | CreateComputePipeline
  | GetBindGroupLayout
  | CreateView
  | CreateBindGroup
  | CreateCommandEncoder
  | BeginComputePass
  | SetPipeline
  | SetBindGroup
  | DispatchWorkgroups real
  | EndPass
  | Finish
  | Submit
  | OnSubmittedWorkDone
  | Destroy resource

datatype gpu_error = Thrown gpu_op

record backend =
  throws :: "gpu_op \<Rightarrow> bool"
  schedule :: "nat \<Rightarrow> gid list"

record gpu =
  live :: "resource \<Rightarrow> nat"
  calls :: "gpu_op list"

definition effect :: "gpu_op \<Rightarrow> (resource \<Rightarrow> nat) \<Rightarrow> (resource \<Rightarrow> nat)" where
  "effect op lv =
     (case op of
        CreateTexture n \<Rightarrow> lv(OutputTexture := lv OutputTexture + 1)
      | CreateBuffer r \<Rightarrow> lv(r := lv r + 1)
      | Destroy r \<Rightarrow> lv(r := lv r - 1)
      | _ \<Rightarrow> lv)"

text \<open>
  The calls of a straight-line piece of code, in order: the first one that throws ends
  the run with its exception, and nothing after it is executed. The conversion has no
  \<open>try\<close>, \<open>catch\<close> or \<open>finally\<close>.
\<close>

fun run :: "backend \<Rightarrow> gpu_op list \<Rightarrow> gpu \<Rightarrow> gpu_error option \<times> gpu" where
  "run be [] s = (None, s)"
| "run be (op # ops) s =
     (if throws be op then (Some (Thrown op), s)
      else run be ops (s\<lparr>live := effect op (live s), calls := calls s @ [op]\<rparr>))"

subsection \<open>The dispatch\<close>

text \<open>
  The output texture as the cells written so far. \<open>dispatch\<close> runs the shader for the
  invocations in the order given; an invocation that passes the bounds check stores
  its value at its own coordinates.
\<close>

type_synonym texture_data = "gid \<Rightarrow> real option option"

definition textureStore :: "texture_data \<Rightarrow> gid \<Rightarrow> real option \<Rightarrow> texture_data" where
  "textureStore tex g c = tex(g := Some c)"

definition invoke :: "Uniforms \<Rightarrow> real list \<Rightarrow> nat list \<Rightarrow> gid \<Rightarrow> texture_data \<Rightarrow> texture_data" where
  "invoke u verts inds g tex =
     (case main u verts inds g of None \<Rightarrow> tex | Some c \<Rightarrow> textureStore tex g c)"

definition dispatch :: "Uniforms \<Rightarrow> real list \<Rightarrow> nat list \<Rightarrow> gid list \<Rightarrow> texture_data \<Rightarrow> texture_data" where
  "dispatch u verts inds order tex = fold (invoke u verts inds) order tex"

text \<open>The invocations of a dispatch of \<open>n\<close> workgroups of 8 x 8 x 8 threads per axis.\<close>

definition invocations :: "nat \<Rightarrow> gid set" where
  "invocations n = {(gx, gy, gz). gx < 8 * n \<and> gy < 8 * n \<and> gz < 8 * n}"

definition row_major :: "nat \<Rightarrow> gid list" where
  "row_major n =
     concat (map (\<lambda>gz. concat (map (\<lambda>gy. map (\<lambda>gx. (gx, gy, gz)) [0..<8 * n]) [0..<8 * n])) [0..<8 * n])"

subsection \<open>computeDistanceField\<close>

record DistanceField =
  texture :: texture_data
  df_resolution :: real
  df_bounds :: BoundingBox
  voxelSize :: "real option"

definition halfExtent_of :: "BoundingBox \<Rightarrow> real \<Rightarrow> real" where
  "halfExtent_of b pad =
     (let meshSize = boundsSize b;
          maxExtent = max (max (vx meshSize) (vy meshSize)) (vz meshSize)
      in (maxExtent * (1 + pad)) / 2)"

definition volumeBounds_of :: "BoundingBox \<Rightarrow> real \<Rightarrow> BoundingBox" where
  "volumeBounds_of b pad =
     (let meshCenter = boundsCenter b;
          halfExtent = halfExtent_of b pad
      in \<lparr>box_min = Vec3 (vx meshCenter - halfExtent) (vy meshCenter - halfExtent)
                         (vz meshCenter - halfExtent),
          box_max = Vec3 (vx meshCenter + halfExtent) (vy meshCenter + halfExtent)
                         (vz meshCenter + halfExtent)\<rparr>)"

definition uniforms_of :: "Mesh \<Rightarrow> DistanceFieldConfig \<Rightarrow> Uniforms" where
  "uniforms_of mesh cfg =
     (let volumeBounds = volumeBounds_of (bounds mesh) (padding cfg)
      in \<lparr>volume_min = box_min volumeBounds, volume_max = box_max volumeBounds,
          uni_resolution = resolution cfg, triangle_count = triangleCount mesh\<rparr>)"

definition setup_ops :: "DistanceFieldConfig \<Rightarrow> gpu_op list" where
  "setup_ops cfg =
     [CreateTexture (resolution cfg),
      CreateBuffer VertexBuffer,
      CreateBuffer IndexBuffer,
      CreateBuffer UniformBuffer,
      CreateShaderModule,
      CreateComputePipeline,
      GetBindGroupLayout,
      CreateView,
      CreateBindGroup,
      CreateCommandEncoder,
      BeginComputePass,
      SetPipeline,
      SetBindGroup,
      DispatchWorkgroups (of_int \<lceil>resolution cfg / 8\<rceil>),
      EndPass,
      Finish,
      Submit]"

definition cleanup_ops :: "gpu_op list" where
  "cleanup_ops =
     [OnSubmittedWorkDone, Destroy VertexBuffer, Destroy IndexBuffer, Destroy UniformBuffer]"

definition computeDistanceField ::
  "backend \<Rightarrow> Mesh \<Rightarrow> PartialConfig \<Rightarrow> gpu \<Rightarrow> (gpu_error + DistanceField) \<times> gpu" where
  "computeDistanceField be mesh config s =
     (let cfg = merge_config config;
          halfExtent = halfExtent_of (bounds mesh) (padding cfg);
          volumeBounds = volumeBounds_of (bounds mesh) (padding cfg);
          voxel = fdiv (halfExtent * 2) (resolution cfg);
          workgroupCount = nat \<lceil>resolution cfg / 8\<rceil>
      in case run be (setup_ops cfg) s of
           (Some e, s1) \<Rightarrow> (Inl e, s1)
         | (None, s1) \<Rightarrow>
             (let tex = dispatch (uniforms_of mesh cfg) (vertices mesh) (indices mesh)
                          (schedule be workgroupCount) (\<lambda>g. None)
              in case run be cleanup_ops s1 of
                   (Some e, s2) \<Rightarrow> (Inl e, s2)
                 | (None, s2) \<Rightarrow>
                     (Inr \<lparr>texture = tex, df_resolution = resolution cfg,
                           df_bounds = volumeBounds, voxelSize = voxel\<rparr>, s2)))"

section \<open>The OBJ loader (mesh/obj-loader.ts)\<close>

text \<open>
  Strings are lists of bytes, so the model covers ASCII input: the white space of
  \<open>trim\<close> and of the pattern \<open>\s\<close> is tab, line feed, vertical tab, form feed, carriage
  return and space. Integers are exact; the code's are doubles, exact up to \<open>2 ^ 53\<close>,
  far above the length an array can have.
\<close>

datatype OBJParseError =
    NoVertices
  | NoFaces
  | VertexTooShort nat
  | InvalidVertex nat
  | FaceTooShort nat
  | InvalidFaceIndex string nat
  | ZeroFaceIndex nat
  | FaceIndexOutOfRange int int nat
  | BoundsNotANumber

definition is_space :: "char \<Rightarrow> bool" where
  "is_space c = (c \<in> {CHR 0x09, CHR 0x0A, CHR 0x0B, CHR 0x0C, CHR 0x0D, CHR 0x20})"

definition trim :: "string \<Rightarrow> string" where
  "trim s = rev (dropWhile is_space (rev (dropWhile is_space s)))"

text \<open>\<open>s.split(c)\<close> for a separator of one character.\<close>

fun split_on :: "char \<Rightarrow> string \<Rightarrow> string list" where
  "split_on c [] = [[]]"
| "split_on c (x # xs) =
     (if x = c then [] # split_on c xs
      else (case split_on c xs of w # ws \<Rightarrow> (x # w) # ws | [] \<Rightarrow> [[x]]))"

text \<open>\<open>s.split(/\s+/)\<close>: the pieces between the maximal runs of white space.\<close>

function split_spaces :: "string \<Rightarrow> string list" where
  "split_spaces [] = [[]]"
| "split_spaces (x # xs) =
     (if is_space x then [] # split_spaces (dropWhile is_space xs)
      else (case split_spaces xs of w # ws \<Rightarrow> (x # w) # ws | [] \<Rightarrow> [[x]]))"
  by pat_completeness auto
termination
  by (relation "measure length") (auto intro: le_imp_less_Suc length_dropWhile_le)

text \<open>
  \<open>parseInt(s, 10)\<close>: leading white space, an optional sign, then the longest run of
  decimal digits; \<open>None\<close> is NaN (no digit). \<open>parseFloat\<close> is the host's and a parameter
  of the loader's model, with \<open>None\<close> for NaN.
\<close>

definition is_digit :: "char \<Rightarrow> bool" where
  "is_digit c = (c \<in> set ''0123456789'')"

definition digits_value :: "string \<Rightarrow> int" where
  "digits_value ds = foldl (\<lambda>acc d. 10 * acc + (int (of_char d) - 48)) 0 ds"

definition parseInt :: "string \<Rightarrow> int option" where
  "parseInt s =
     (let t = dropWhile is_space s;
          (neg, u) = (case t of
                        c # r \<Rightarrow> if c = CHR ''-'' then (True, r)
                                 else if c = CHR ''+'' then (False, r) else (False, t)
                      | [] \<Rightarrow> (False, t));
          ds = takeWhile is_digit u
      in if ds = [] then None
         else Some (if neg then - digits_value ds else digits_value ds))"

definition parseVertex ::
  "(string \<Rightarrow> real option) \<Rightarrow> string list \<Rightarrow> real list \<Rightarrow> nat \<Rightarrow> OBJParseError + real list" where
  "parseVertex parseFloat parts verts lineNum =
     (if length parts < 4 then Inl (VertexTooShort lineNum)
      else (case (parseFloat (parts ! 1), parseFloat (parts ! 2), parseFloat (parts ! 3)) of
              (Some x, Some y, Some z) \<Rightarrow> Inr (verts @ [x, y, z])
            | _ \<Rightarrow> Inl (InvalidVertex lineNum)))"

text \<open>One vertex reference of a face: one round of the first loop of \<open>parseFace\<close>.\<close>

definition face_index :: "string \<Rightarrow> int \<Rightarrow> nat \<Rightarrow> OBJParseError + nat" where
  "face_index part vertexCount lineNum =
     (let indexPart = hd (split_on (CHR ''/'') part) in
      case parseInt indexPart of
        None \<Rightarrow> Inl (InvalidFaceIndex part lineNum)
      | Some index \<Rightarrow>
          if index = 0 then Inl (ZeroFaceIndex lineNum)
          else (let zeroBasedIndex = (if index > 0 then index - 1 else vertexCount + index) in
                if zeroBasedIndex < 0 \<or> zeroBasedIndex \<ge> vertexCount
                then Inl (FaceIndexOutOfRange index vertexCount lineNum)
                else Inr (nat zeroBasedIndex)))"

fun face_indices :: "string list \<Rightarrow> int \<Rightarrow> nat \<Rightarrow> OBJParseError + nat list" where
  "face_indices [] vertexCount lineNum = Inr []"
| "face_indices (part # rest) vertexCount lineNum =
     (case face_index part vertexCount lineNum of
        Inl e \<Rightarrow> Inl e
      | Inr i \<Rightarrow> (case face_indices rest vertexCount lineNum of
                    Inl e \<Rightarrow> Inl e
                  | Inr is \<Rightarrow> Inr (i # is)))"

text \<open>The fan: \<open>for (i = 1; i < faceIndices.length - 1; i++)\<close>.\<close>

definition fan :: "nat list \<Rightarrow> nat list" where
  "fan fi = concat (map (\<lambda>i. [fi ! 0, fi ! i, fi ! (i + 1)]) [1..<length fi - 1])"

definition parseFace :: "string list \<Rightarrow> nat list \<Rightarrow> int \<Rightarrow> nat \<Rightarrow> OBJParseError + nat list" where
  "parseFace parts inds vertexCount lineNum =
     (if length parts < 4 then Inl (FaceTooShort lineNum)
      else (case face_indices (drop 1 parts) vertexCount lineNum of
              Inl e \<Rightarrow> Inl e
            | Inr faceIndices \<Rightarrow> Inr (inds @ fan faceIndices)))"

text \<open>
  The loop of \<open>parseOBJContent\<close> over the lines, from line index \<open>lineNum\<close> on, with the
  two arrays built so far. The vertex count passed to \<open>parseFace\<close> is
  \<open>vertices.length / 3\<close>; vertices are pushed three floats at a time, so the division
  is exact (lemma \<open>parse_lines_invariant\<close>).
\<close>

fun parse_lines ::
  "(string \<Rightarrow> real option) \<Rightarrow> string list \<Rightarrow> nat \<Rightarrow> real list \<Rightarrow> nat list \<Rightarrow>
     OBJParseError + real list \<times> nat list" where
  "parse_lines parseFloat [] lineNum verts inds = Inr (verts, inds)"
| "parse_lines parseFloat (l # ls) lineNum verts inds =
     (let line = trim l in
      if length line = 0 \<or> take 1 line = ''#''
      then parse_lines parseFloat ls (lineNum + 1) verts inds
      else (let parts = split_spaces line; command = parts ! 0 in
            if command = ''v'' then
              (case parseVertex parseFloat parts verts (lineNum + 1) of
                 Inl e \<Rightarrow> Inl e
               | Inr verts' \<Rightarrow> parse_lines parseFloat ls (lineNum + 1) verts' inds)
            else if command = ''f'' then
              (case parseFace parts inds (int (length verts div 3)) (lineNum + 1) of
                 Inl e \<Rightarrow> Inl e
               | Inr inds' \<Rightarrow> parse_lines parseFloat ls (lineNum + 1) verts inds')
            else parse_lines parseFloat ls (lineNum + 1) verts inds))"

definition parseOBJContent ::
  "(string \<Rightarrow> real option) \<Rightarrow> string \<Rightarrow> OBJParseError + real list \<times> nat list" where
  "parseOBJContent parseFloat content =
     parse_lines parseFloat (split_on (CHR 0x0A) content) 0 [] []"

text \<open>
  \<open>parseOBJ\<close>. \<open>new Uint32Array\<close> reduces every index modulo \<open>2 ^ 32\<close>. The bounds of the
  mesh record are numbers, so a box with a NaN component has no place in it; the
  model gives \<open>BoundsNotANumber\<close> for it, which no input reaches (lemma
  \<open>parseOBJ_bounds\<close>).
\<close>

definition parseOBJ :: "(string \<Rightarrow> real option) \<Rightarrow> string \<Rightarrow> OBJParseError + Mesh" where
  "parseOBJ parseFloat objContent =
     (case parseOBJContent parseFloat objContent of
        Inl e \<Rightarrow> Inl e
      | Inr (verts, inds) \<Rightarrow>
          if length verts = 0 then Inl NoVertices
          else if length inds = 0 then Inl NoFaces
          else (let inds32 = map (\<lambda>i. i mod 2 ^ 32) inds in
                case computeBounds verts of
                  None \<Rightarrow> Inl BoundsNotANumber
                | Some b \<Rightarrow>
                    Inr \<lparr>vertices = verts, indices = inds32,
                         triangleCount = real (length inds32) / 3, bounds = b\<rparr>))"

text \<open>
  What the loop keeps true of the two arrays: whole vertices, whole triangles, and
  every index below the number of vertices read so far.
\<close>

definition loader_inv :: "real list \<Rightarrow> nat list \<Rightarrow> bool" where
  "loader_inv verts inds \<longleftrightarrow>
     3 dvd length verts \<and> 3 dvd length inds \<and> (\<forall>i\<in>set inds. i < length verts div 3)"

text \<open>
  A stand-in for the host's \<open>parseFloat\<close> on tokens that are decimal integers, where it
  agrees with \<open>parseInt\<close>; and the first file of the loader's tests.
\<close>

definition integer_parseFloat :: "string \<Rightarrow> real option" where
  "integer_parseFloat s = map_option real_of_int (parseInt s)"

definition triangle_obj :: string where
  "triangle_obj =
     ''v 0 0 0'' @ [CHR 0x0A] @ ''v 1 0 0'' @ [CHR 0x0A] @ ''v 0 1 0'' @ [CHR 0x0A] @ ''f 1 2 3''"

section \<open>Example inputs\<close>

text \<open>The triangle of the tests, alone in a mesh.\<close>

definition unit_mesh :: Mesh where
  "unit_mesh =
     \<lparr>vertices = [0, 0, 0, 1, 0, 0, 0, 1, 0], indices = [0, 1, 2], triangleCount = 1,
      bounds = \<lparr>box_min = Vec3 0 0 0, box_max = Vec3 1 1 0\<rparr>\<rparr>"



text \<open>The mesh of the third test of \<open>computeBounds\<close>, a box of three different extents.\<close>

definition skew_mesh :: Mesh where
  "skew_mesh =
     \<lparr>vertices = [- 1, - 2, - 3, 4, 5, 6, 0, 0, 0], indices = [0, 1, 2], triangleCount = 1,
      bounds = \<lparr>box_min = Vec3 (- 1) (- 2) (- 3), box_max = Vec3 4 5 6\<rparr>\<rparr>"

text \<open>A triangle of zero area: three points of the x axis.\<close>

definition sliver_mesh :: Mesh where
  "sliver_mesh =
     \<lparr>vertices = [0, 0, 0, 1, 0, 0, 2, 0, 0], indices = [0, 1, 2], triangleCount = 1,
      bounds = \<lparr>box_min = Vec3 0 0 0, box_max = Vec3 2 0 0\<rparr>\<rparr>"

text \<open>
  The triangle of the tests, and above it a larger triangle in the plane \<open>z = 0.47\<close>.
\<close>

definition pair_mesh :: Mesh where
  "pair_mesh =
     \<lparr>vertices = [0, 0, 0, 1, 0, 0, 0, 1, 0,
                  0, - 1, 47 / 100, 3, - 1, 47 / 100, 0, 3, 47 / 100],
      indices = [0, 1, 2, 3, 4, 5], triangleCount = 2,
      bounds = \<lparr>box_min = Vec3 0 (- 1) 0, box_max = Vec3 3 3 (47 / 100)\<rparr>\<rparr>"


text \<open>A grid of 2 x 2 x 2 voxels over a volume of half-extent 1.\<close>

definition near_config :: PartialConfig where
  "near_config = \<lparr>opt_resolution = Some 2, opt_padding = Some 1\<rparr>"

text \<open>A configuration that asks for no voxel at all, and the one that leaves every field out.\<close>

definition zero_config :: PartialConfig where
  "zero_config = \<lparr>opt_resolution = Some 0, opt_padding = None\<rparr>"

definition no_config :: PartialConfig where
  "no_config = \<lparr>opt_resolution = None, opt_padding = None\<rparr>"

text \<open>A device with nothing allocated, and backends that differ in what throws.\<close>

definition gpu0 :: gpu where
  "gpu0 = \<lparr>live = (\<lambda>r. 0), calls = []\<rparr>"

definition ok_backend :: backend where
  "ok_backend = \<lparr>throws = (\<lambda>op. False), schedule = row_major\<rparr>"

definition reversed_backend :: backend where
  "reversed_backend = \<lparr>throws = (\<lambda>op. False), schedule = (\<lambda>n. rev (row_major n))\<rparr>"

definition exhausted_backend :: backend where
  "exhausted_backend = \<lparr>throws = (\<lambda>op. op = CreateBuffer IndexBuffer), schedule = row_major\<rparr>"

definition empty_mesh :: Mesh where
  "empty_mesh =
     \<lparr>vertices = [], indices = [], triangleCount = 0,
      bounds = \<lparr>box_min = Vec3 0 0 0, box_max = Vec3 0 0 0\<rparr>\<rparr>"

section \<open>Bounding boxes\<close>

lemma Min_insert_min:
  "finite S \<Longrightarrow> Min (insert (min a b) S) = Min (insert (a::real) (insert b S))"
  by (cases "S = {}") (simp_all add: min.assoc)

lemma Max_insert_max:
  "finite S \<Longrightarrow> Max (insert (max a b) S) = Max (insert (a::real) (insert b S))"
  by (cases "S = {}") (simp_all add: max.assoc)

text \<open>
  The loop invariant of \<open>computeBounds\<close> on an array of \<open>n\<close> whole vertices: entered at
  vertex \<open>k\<close>, the loop returns the running corners folded with the vertices \<open>k..<n\<close>.
\<close>

lemma bounds_loop_wf:
  "length vs = 3 * n \<Longrightarrow> k \<le> n \<Longrightarrow>
   bounds_loop vs (3 * k) mn mx =
     Some \<lparr>box_min = Vec3 (Min (insert (vx mn) ((\<lambda>j. vs ! (3 * j)) ` {k..<n})))
                          (Min (insert (vy mn) ((\<lambda>j. vs ! (3 * j + 1)) ` {k..<n})))
                          (Min (insert (vz mn) ((\<lambda>j. vs ! (3 * j + 2)) ` {k..<n}))),
           box_max = Vec3 (Max (insert (vx mx) ((\<lambda>j. vs ! (3 * j)) ` {k..<n})))
                          (Max (insert (vy mx) ((\<lambda>j. vs ! (3 * j + 1)) ` {k..<n})))
                          (Max (insert (vz mx) ((\<lambda>j. vs ! (3 * j + 2)) ` {k..<n})))\<rparr>"
proof (induction "n - k" arbitrary: k mn mx)
  case 0
  then have "k = n" by simp
  with 0 show ?case by (simp add: bounds_loop.simps)
next
  case (Suc d)
  then have lt: "k < n" and d: "d = n - Suc k" and le: "Suc k \<le> n" by auto
  have step: "{k..<n} = insert k {Suc k..<n}" using lt by auto
  have three: "3 * k + 3 = 3 * Suc k" by simp
  have inr: "3 * k < length vs" "3 * k + 2 < length vs" using lt Suc.prems(1) by auto
  have "bounds_loop vs (3 * k) mn mx =
        bounds_loop vs (3 * Suc k)
          (Vec3 (min (vx mn) (vs ! (3 * k))) (min (vy mn) (vs ! (3 * k + 1)))
                (min (vz mn) (vs ! (3 * k + 2))))
          (Vec3 (max (vx mx) (vs ! (3 * k))) (max (vy mx) (vs ! (3 * k + 1)))
                (max (vz mx) (vs ! (3 * k + 2))))"
    by (subst bounds_loop.simps) (simp only: inr if_True three)
  also note Suc.hyps(1)[OF d Suc.prems(1) le]
  finally show ?case
    by (simp add: step Min_insert_min Max_insert_max)
qed

lemma set_coords:
  assumes "length vs = 3 * n" "0 < n"
  shows "set (coords c vs) = insert (vs ! c) ((\<lambda>j. vs ! (3 * j + c)) ` {1..<n})"
proof -
  have "{0..<n} = insert 0 {1..<n}" using assms(2) by auto
  then show ?thesis using assms by (simp add: coords_def)
qed

lemma coords_nonempty: "length vs = 3 * n \<Longrightarrow> 0 < n \<Longrightarrow> coords c vs \<noteq> []"
  by (simp add: coords_def)

lemma computeBounds_wf:
  assumes "length vs = 3 * n" "0 < n"
  shows "computeBounds vs =
     Some \<lparr>box_min = Vec3 (Min (set (coords 0 vs))) (Min (set (coords 1 vs))) (Min (set (coords 2 vs))),
           box_max = Vec3 (Max (set (coords 0 vs))) (Max (set (coords 1 vs))) (Max (set (coords 2 vs)))\<rparr>"
proof -
  have "\<not> length vs < 3" using assms by simp
  moreover have "1 \<le> n" using assms by simp
  ultimately show ?thesis
    using bounds_loop_wf[OF assms(1), of 1]
    by (simp add: computeBounds_def set_coords[OF assms])
qed

lemma Min_le_Max_set: "xs \<noteq> [] \<Longrightarrow> Min (set xs) \<le> Max (set (xs::real list))"
  by (metis List.finite_set Max_ge Min_le hd_in_set order_trans)

text \<open>An array that ends inside a vertex gives a box with a NaN component.\<close>

lemma computeBounds_ragged: "computeBounds [1, 2, 3, 4] = None"
  by (simp add: computeBounds_def bounds_loop.simps)

text \<open>
  Claim C10. For a vertex array of fewer than three floats (the empty one among them)
  \<open>computeBounds\<close> returns the box with both corners at the origin and does not fail.
  For a non-empty array of whole vertices it returns the componentwise minimum and
  maximum over all vertices. In both cases the minimum corner is componentwise below
  the maximum corner.
\<close>

theorem computeBounds_spec:
  "(length vs < 3 \<longrightarrow>
      computeBounds vs = Some \<lparr>box_min = Vec3 0 0 0, box_max = Vec3 0 0 0\<rparr>) \<and>
   (vs \<noteq> [] \<and> 3 dvd length vs \<longrightarrow>
      computeBounds vs =
        Some \<lparr>box_min = Vec3 (Min (set (coords 0 vs))) (Min (set (coords 1 vs))) (Min (set (coords 2 vs))),
              box_max = Vec3 (Max (set (coords 0 vs))) (Max (set (coords 1 vs))) (Max (set (coords 2 vs)))\<rparr>) \<and>
   (length vs < 3 \<or> 3 dvd length vs \<longrightarrow>
      (\<exists>b. computeBounds vs = Some b \<and>
        vx (box_min b) \<le> vx (box_max b) \<and> vy (box_min b) \<le> vy (box_max b) \<and>
        vz (box_min b) \<le> vz (box_max b)))"
proof (intro conjI impI)
  assume "length vs < 3"
  then show "computeBounds vs = Some \<lparr>box_min = Vec3 0 0 0, box_max = Vec3 0 0 0\<rparr>"
    by (simp add: computeBounds_def)
next
  assume "vs \<noteq> [] \<and> 3 dvd length vs"
  then obtain n where n: "length vs = 3 * n" "0 < n"
    by (cases "length vs = 0") (auto simp: dvd_def)
  then show "computeBounds vs =
        Some \<lparr>box_min = Vec3 (Min (set (coords 0 vs))) (Min (set (coords 1 vs))) (Min (set (coords 2 vs))),
              box_max = Vec3 (Max (set (coords 0 vs))) (Max (set (coords 1 vs))) (Max (set (coords 2 vs)))\<rparr>"
    by (rule computeBounds_wf)
next
  assume a: "length vs < 3 \<or> 3 dvd length vs"
  show "\<exists>b. computeBounds vs = Some b \<and>
        vx (box_min b) \<le> vx (box_max b) \<and> vy (box_min b) \<le> vy (box_max b) \<and>
        vz (box_min b) \<le> vz (box_max b)"
  proof (cases "length vs < 3")
    case True
    then show ?thesis by (simp add: computeBounds_def)
  next
    case False
    with a obtain n where n: "length vs = 3 * n" "0 < n"
      by (cases "length vs = 0") (auto simp: dvd_def)
    show ?thesis
      using computeBounds_wf[OF n] coords_nonempty[OF n]
      by (simp add: Min_le_Max_set)
  qed
qed

theorem computeBounds_spec_witness:
  "computeBounds [] = Some \<lparr>box_min = Vec3 0 0 0, box_max = Vec3 0 0 0\<rparr> \<and>
   computeBounds [- 1, - 2, - 3, 4, 5, 6, 0, 0, 0] =
     Some \<lparr>box_min = Vec3 (- 1) (- 2) (- 3), box_max = Vec3 4 5 6\<rparr>"
proof -
  have d: "3 dvd length [- 1, - 2, - 3, 4, 5, 6, 0, 0, 0 :: real]"
  proof -
    have "length [- 1, - 2, - 3, 4, 5, 6, 0, 0, 0 :: real] = 3 * 3" by simp
    then show ?thesis by (simp only: dvd_triv_left)
  qed
  show ?thesis
    using d computeBounds_spec [of "[]"] computeBounds_spec [of "[- 1, - 2, - 3, 4, 5, 6, 0, 0, 0]"]
    by (simp add: coords_def upt_rec)
qed

section \<open>The distance kernel\<close>

lemmas vec_defs = add3_def sub3_def scale3_def mul3_def dot_def cross_def length3_def

text \<open>
  No division of \<open>point_triangle_distance\<close> meets a zero divisor: the determinant is
  divided by only when its magnitude is at least \<open>1e-10\<close>, and \<open>s + t\<close> only when it
  exceeds 1. The function returns a non-negative number on every input.
\<close>

lemma point_triangle_distance_total:
  "\<exists>d. point_triangle_distance p v0 v1 v2 = Some d \<and> 0 \<le> d"
  by (auto simp: point_triangle_distance_def Let_def fdiv_def length3_def dot_def)

text \<open>
  The fallback, with the determinant as exact arithmetic gives it: below the threshold
  the value returned is the Euclidean distance to the first vertex. The shader's own
  determinant is rounded; of a triangle of zero area and large coordinates it need
  not be below the threshold.
\<close>

lemma fallback_exact:
  "\<bar>denom v0 v1 v2\<bar> < 1 / 10 ^ 10 \<Longrightarrow>
     point_triangle_distance p v0 v1 v2 =
       Some (sqrt ((vx p - vx v0)\<^sup>2 + (vy p - vy v0)\<^sup>2 + (vz p - vz v0)\<^sup>2))"
  by (simp add: point_triangle_distance_def denom_def Let_def vec_defs power2_eq_square)

text \<open>
  Past the degenerate test, the value returned is the distance to a point
  \<open>v0 + s * e0 + t * e1\<close> of the filled triangle: an upper bound of the distance to the
  triangle.
\<close>

lemma point_triangle_distance_in_triangle:
  assumes "\<not> \<bar>denom v0 v1 v2\<bar> < 1 / 10 ^ 10"
  shows "\<exists>s t. 0 \<le> s \<and> 0 \<le> t \<and> s + t \<le> 1 \<and>
           point_triangle_distance p v0 v1 v2 =
             Some (length3 (sub3 p (add3 (add3 v0 (scale3 s (sub3 v1 v0))) (scale3 t (sub3 v2 v0)))))"
proof -
  let ?e0 = "sub3 v1 v0" and ?e1 = "sub3 v2 v0" and ?v = "sub3 p v0"
  let ?dn = "dot ?e0 ?e0 * dot ?e1 ?e1 - dot ?e0 ?e1 * dot ?e0 ?e1"
  define s1 where "s1 = max 0 ((dot ?e1 ?e1 * dot ?v ?e0 - dot ?e0 ?e1 * dot ?v ?e1) / ?dn)"
  define t1 where "t1 = max 0 ((dot ?e0 ?e0 * dot ?v ?e1 - dot ?e0 ?e1 * dot ?v ?e0) / ?dn)"
  have dn: "?dn \<noteq> 0" using assms by (auto simp: denom_def Let_def)
  have nn: "0 \<le> s1" "0 \<le> t1" by (simp_all add: s1_def t1_def)
  have eq: "point_triangle_distance p v0 v1 v2 =
      (if s1 + t1 > 1
       then Some (length3 (sub3 p (add3 (add3 v0 (scale3 (s1 * (1 / (s1 + t1))) ?e0))
                                         (scale3 (t1 * (1 / (s1 + t1))) ?e1))))
       else Some (length3 (sub3 p (add3 (add3 v0 (scale3 s1 ?e0)) (scale3 t1 ?e1)))))"
    using assms dn
    by (simp add: point_triangle_distance_def denom_def Let_def fdiv_def s1_def t1_def max_def)
  show ?thesis
  proof (cases "s1 + t1 > 1")
    case True
    then have "(s1 + t1) * (1 / (s1 + t1)) = 1" by simp
    then have "s1 * (1 / (s1 + t1)) + t1 * (1 / (s1 + t1)) = 1"
      by (simp only: distrib_right)
    moreover have "0 \<le> s1 * (1 / (s1 + t1))" "0 \<le> t1 * (1 / (s1 + t1))"
      using nn True by simp_all
    ultimately show ?thesis using eq True
      by (intro exI[of _ "s1 * (1 / (s1 + t1))"] exI[of _ "t1 * (1 / (s1 + t1))"]) simp
  next
    case False
    with nn eq show ?thesis
      by (intro exI[of _ s1] exI[of _ t1]) simp
  qed
qed

text \<open>
  Claim C2, at the sample point \<open>(1, 1/2, 0)\<close> beyond the hypotenuse of the triangle
  \<open>(0,0,0), (1,0,0), (0,1,0)\<close>. The plane coordinates are \<open>s = 1\<close>, \<open>t = 1/2\<close>; the
  rescaling by \<open>1 / (s + t)\<close> moves them to \<open>(2/3, 1/3)\<close>, and the function returns
  the distance to that point, \<open>sqrt (5/36)\<close>. The point \<open>(3/4, 1/4, 0)\<close> of the same edge
  is nearer, at \<open>sqrt (1/8)\<close>: the value returned is not the distance to the triangle.
\<close>

theorem rescale_not_closest:
  "point_triangle_distance (Vec3 1 (1/2) 0) (Vec3 0 0 0) (Vec3 1 0 0) (Vec3 0 1 0) =
     Some (sqrt (5 / 36)) \<and>
   add3 (add3 (Vec3 0 0 0) (scale3 (3/4) (sub3 (Vec3 1 0 0) (Vec3 0 0 0))))
        (scale3 (1/4) (sub3 (Vec3 0 1 0) (Vec3 0 0 0))) = Vec3 (3/4) (1/4) 0 \<and>
   length3 (sub3 (Vec3 1 (1/2) 0) (Vec3 (3/4) (1/4) 0)) = sqrt (1 / 8) \<and>
   sqrt (1 / 8) < sqrt (5 / 36)"
proof (intro conjI)
  show "point_triangle_distance (Vec3 1 (1/2) 0) (Vec3 0 0 0) (Vec3 1 0 0) (Vec3 0 1 0) =
     Some (sqrt (5 / 36))"
    by (simp add: point_triangle_distance_def Let_def vec_defs fdiv_def power2_eq_square)
  show "add3 (add3 (Vec3 0 0 0) (scale3 (3/4) (sub3 (Vec3 1 0 0) (Vec3 0 0 0))))
        (scale3 (1/4) (sub3 (Vec3 0 1 0) (Vec3 0 0 0))) = Vec3 (3/4) (1/4) 0"
    by (simp add: vec_defs)
  show "length3 (sub3 (Vec3 1 (1/2) 0) (Vec3 (3/4) (1/4) 0)) = sqrt (1 / 8)"
    by (simp add: vec_defs)
  show "sqrt (1 / 8) < sqrt (5 / 36)"
    by simp
qed

text \<open>
  The sign. For a triangle that spans a plane, \<open>triangle_normal\<close> is the unit vector
  along the cross product of the edges, and \<open>compute_sign\<close> is the sign of its dot
  product with the vector from the centroid to the sample point. The cross product of
  a triangle of zero area is the zero vector, whose normalisation divides zero by zero.
\<close>

lemma compute_sign_nondegenerate:
  assumes "cross (sub3 v1 v0) (sub3 v2 v0) \<noteq> Vec3 0 0 0"
  shows "\<exists>n. triangle_normal v0 v1 v2 = Some n \<and> length3 n = 1 \<and>
             n = scale3 (1 / length3 (cross (sub3 v1 v0) (sub3 v2 v0)))
                   (cross (sub3 v1 v0) (sub3 v2 v0)) \<and>
             compute_sign p v0 v1 v2 =
               Some (sgn (dot n (sub3 p (scale3 (1/3) (add3 (add3 v0 v1) v2)))))"
proof -
  let ?c = "cross (sub3 v1 v0) (sub3 v2 v0)"
  have pos: "0 < dot ?c ?c"
  proof -
    obtain a b c where c: "?c = Vec3 a b c" by (cases ?c) auto
    with assms have "a \<noteq> 0 \<or> b \<noteq> 0 \<or> c \<noteq> 0" by auto
    then have "0 < a * a + b * b + c * c"
      by (metis add_pos_nonneg add_nonneg_pos zero_le_square not_real_square_gt_zero
          add_nonneg_nonneg)
    with c show ?thesis by (simp add: dot_def)
  qed
  then have len: "length3 ?c \<noteq> 0" "0 < length3 ?c" by (simp_all add: length3_def)
  have n: "triangle_normal v0 v1 v2 = Some (scale3 (1 / length3 ?c) ?c)"
    using len by (simp add: triangle_normal_def normalize3_def div3_def fdiv_def scale3_def)
  have sq: "length3 ?c * length3 ?c = dot ?c ?c" using pos by (simp add: length3_def)
  have "dot (scale3 (1 / length3 ?c) ?c) (scale3 (1 / length3 ?c) ?c) =
        (1 / length3 ?c) * (1 / length3 ?c) * dot ?c ?c"
    by (simp add: dot_def scale3_def algebra_simps)
  also have "\<dots> = (1 / length3 ?c) * (1 / length3 ?c) * (length3 ?c * length3 ?c)"
    by (simp only: sq)
  also have "\<dots> = 1" using len by simp
  finally have unit: "length3 (scale3 (1 / length3 ?c) ?c) = 1"
    by (simp add: length3_def)
  have "compute_sign p v0 v1 v2 =
     Some (sgn (dot (scale3 (1 / length3 ?c) ?c) (sub3 p (scale3 (1/3) (add3 (add3 v0 v1) v2)))))"
    by (simp add: compute_sign_def n div3_def fdiv_def scale3_def Let_def)
  with n unit show ?thesis by blast
qed

lemma compute_sign_degenerate:
  "cross (sub3 v1 v0) (sub3 v2 v0) = Vec3 0 0 0 \<Longrightarrow> compute_sign p v0 v1 v2 = None"
  by (simp add: compute_sign_def triangle_normal_def normalize3_def div3_def fdiv_def
      length3_def dot_def)

section \<open>The grid evaluator\<close>

text \<open>
  The loop over the triangles: one round, the loop from a round on when no later
  triangle is nearer than the running minimum, and when triangle \<open>k\<close> is the first of
  the nearest ones and nearer than the running minimum.
\<close>

lemma tri_loop_step:
  assumes "i < n" "get_triangle vs is i = Some t" "tri_dist p t = Some d"
  shows "tri_loop vs is p n i (md, ct) =
         tri_loop vs is p n (Suc i) (if d < md then (d, i) else (md, ct))"
proof -
  obtain a b c where t: "t = (a, b, c)" by (cases t) auto
  with assms(3) have "point_triangle_distance p a b c = Some d" by (simp add: tri_dist_def)
  with assms(1,2) t show ?thesis by (subst tri_loop.simps) simp
qed

lemma tri_loop_done: "\<not> i < n \<Longrightarrow> tri_loop vs is p n i st = Some st"
  by (cases st) (simp add: tri_loop.simps)

lemma tri_loop_keep:
  assumes "\<forall>j. i \<le> j \<and> j < n \<longrightarrow>
             get_triangle vs is j = Some (T j) \<and> tri_dist p (T j) = Some (D j) \<and> md \<le> D j"
  shows "tri_loop vs is p n i (md, ct) = Some (md, ct)"
  using assms
proof (induction "n - i" arbitrary: i)
  case 0
  then show ?case by (simp add: tri_loop_done)
next
  case (Suc d)
  then have lt: "i < n" and d: "d = n - Suc i" by auto
  from Suc.prems lt have here: "get_triangle vs is i = Some (T i)" "tri_dist p (T i) = Some (D i)" "md \<le> D i"
    by auto
  have rest: "\<forall>j. Suc i \<le> j \<and> j < n \<longrightarrow>
             get_triangle vs is j = Some (T j) \<and> tri_dist p (T j) = Some (D j) \<and> md \<le> D j"
    using Suc.prems by auto
  have "tri_loop vs is p n i (md, ct) = tri_loop vs is p n (Suc i) (md, ct)"
    using tri_loop_step[OF lt here(1,2), of md ct] here(3) by simp
  with Suc.hyps(1)[OF d rest] show ?case by simp
qed

lemma tri_loop_winner:
  assumes "\<forall>j. i \<le> j \<and> j < n \<longrightarrow>
             get_triangle vs is j = Some (T j) \<and> tri_dist p (T j) = Some (D j)"
    and "i \<le> k" "k < n" "D k < md"
    and "\<forall>j. i \<le> j \<and> j < n \<longrightarrow> D k \<le> D j"
    and "\<forall>j. i \<le> j \<and> j < k \<longrightarrow> D k < D j"
  shows "tri_loop vs is p n i (md, ct) = Some (D k, k)"
  using assms
proof (induction "k - i" arbitrary: i md ct)
  case 0
  then have ik: "i = k" by simp
  have here: "get_triangle vs is k = Some (T k)" "tri_dist p (T k) = Some (D k)"
    using "0.prems"(1,3) ik by auto
  have keep: "\<forall>j. Suc k \<le> j \<and> j < n \<longrightarrow>
             get_triangle vs is j = Some (T j) \<and> tri_dist p (T j) = Some (D j) \<and> D k \<le> D j"
    using "0.prems"(1,5) ik by auto
  have "tri_loop vs is p n k (md, ct) = tri_loop vs is p n (Suc k) (D k, k)"
    using tri_loop_step[OF "0.prems"(3) here, of md ct] "0.prems"(4) by simp
  with tri_loop_keep[OF keep] ik show ?case by simp
next
  case (Suc d)
  then have lt: "i < k" "i < n" and d: "d = k - Suc i" by auto
  have here: "get_triangle vs is i = Some (T i)" "tri_dist p (T i) = Some (D i)" "D k < D i"
    using Suc.prems lt by auto
  have p1: "\<forall>j. Suc i \<le> j \<and> j < n \<longrightarrow>
             get_triangle vs is j = Some (T j) \<and> tri_dist p (T j) = Some (D j)"
    using Suc.prems by auto
  have p5: "\<forall>j. Suc i \<le> j \<and> j < n \<longrightarrow> D k \<le> D j" using Suc.prems by auto
  have p6: "\<forall>j. Suc i \<le> j \<and> j < k \<longrightarrow> D k < D j" using Suc.prems by auto
  have le: "Suc i \<le> k" using lt by simp
  show ?case
  proof (cases "D i < md")
    case True
    have "tri_loop vs is p n i (md, ct) = tri_loop vs is p n (Suc i) (D i, i)"
      using tri_loop_step[OF lt(2) here(1,2), of md ct] True by simp
    with Suc.hyps(1)[OF d p1 le Suc.prems(3) here(3) p5 p6] show ?thesis by simp
  next
    case False
    have "tri_loop vs is p n i (md, ct) = tri_loop vs is p n (Suc i) (md, ct)"
      using tri_loop_step[OF lt(2) here(1,2), of md ct] False by simp
    with Suc.hyps(1)[OF d p1 le Suc.prems(3) Suc.prems(4) p5 p6] show ?thesis by simp
  qed
qed



lemma main_in_range:
  assumes "gx < u32 (uni_resolution u)" "gy < u32 (uni_resolution u)" "gz < u32 (uni_resolution u)"
    and "voxel_center u (gx, gy, gz) = Some p"
    and "tri_loop vs is p (u32 (triangle_count u)) 0 (10 ^ 10, 0) = Some (md, k)"
  shows "main u vs is (gx, gy, gz) =
         Some (do { t \<leftarrow> get_triangle vs is k; s \<leftarrow> tri_sign p t; Some (s * md) })"
  using assms by (cases "get_triangle vs is k") (auto simp add: main_def tri_sign_def)

lemma main_winner:
  assumes "gx < u32 (uni_resolution u)" "gy < u32 (uni_resolution u)" "gz < u32 (uni_resolution u)"
    and "voxel_center u (gx, gy, gz) = Some p"
    and tris: "\<forall>j<u32 (triangle_count u). get_triangle vs is j = Some (T j) \<and> tri_dist p (T j) = Some (D j)"
    and k: "k < u32 (triangle_count u)" "D k < 10 ^ 10"
      "\<forall>j<u32 (triangle_count u). D k \<le> D j" "\<forall>j<k. D k < D j"
  shows "tri_loop vs is p (u32 (triangle_count u)) 0 (10 ^ 10, 0) = Some (D k, k)"
    and "main u vs is (gx, gy, gz) = Some (map_option (\<lambda>s. s * D k) (tri_sign p (T k)))"
proof -
  show loop: "tri_loop vs is p (u32 (triangle_count u)) 0 (10 ^ 10, 0) = Some (D k, k)"
    by (rule tri_loop_winner[where T = T]) (use tris k in auto)
  have "get_triangle vs is k = Some (T k)" using tris k(1) by simp
  with main_in_range[OF assms(1-4) loop]
  show "main u vs is (gx, gy, gz) = Some (map_option (\<lambda>s. s * D k) (tri_sign p (T k)))"
    by (cases "tri_sign p (T k)") simp_all
qed














text \<open>The mesh of one triangle of zero area, evaluated.\<close>

lemma sliver_uniforms: "uniforms_of sliver_mesh (merge_config near_config) =
   \<lparr>volume_min = Vec3 (- 1) (- 2) (- 2), volume_max = Vec3 3 2 2,
    uni_resolution = 2, triangle_count = 1\<rparr>"
  by (simp add: uniforms_of_def sliver_mesh_def near_config_def merge_config_def volumeBounds_of_def
      halfExtent_of_def boundsCenter_def boundsSize_def Let_def)

text \<open>
  Claim C5, on the triangle \<open>(0,0,0), (1,0,0), (2,0,0)\<close> of zero area, alone in a mesh.
  Every number of this computation is exact in single precision up to the last square
  root. The determinant is 0 and \<open>point_triangle_distance\<close> falls back to the distance
  to the first vertex, \<open>sqrt 2\<close> at the centre of voxel \<open>(0, 0, 0)\<close>. The sign is computed
  against the same triangle: its cross product is the zero vector, \<open>normalize\<close> divides
  zero by zero, and the value the kernel stores for the voxel is not a number.
\<close>

theorem degenerate_sign_not_a_number:
  "get_triangle (vertices sliver_mesh) (indices sliver_mesh) 0 =
     Some (Vec3 0 0 0, Vec3 1 0 0, Vec3 2 0 0) \<and>
   denom (Vec3 0 0 0) (Vec3 1 0 0) (Vec3 2 0 0) = 0 \<and>
   voxel_center (uniforms_of sliver_mesh (merge_config near_config)) (0, 0, 0) =
     Some (Vec3 0 (- 1) (- 1)) \<and>
   point_triangle_distance (Vec3 0 (- 1) (- 1)) (Vec3 0 0 0) (Vec3 1 0 0) (Vec3 2 0 0) =
     Some (sqrt 2) \<and>
   cross (sub3 (Vec3 1 0 0) (Vec3 0 0 0)) (sub3 (Vec3 2 0 0) (Vec3 0 0 0)) = Vec3 0 0 0 \<and>
   triangle_normal (Vec3 0 0 0) (Vec3 1 0 0) (Vec3 2 0 0) = None \<and>
   compute_sign (Vec3 0 (- 1) (- 1)) (Vec3 0 0 0) (Vec3 1 0 0) (Vec3 2 0 0) = None \<and>
   main (uniforms_of sliver_mesh (merge_config near_config)) (vertices sliver_mesh)
     (indices sliver_mesh) (0, 0, 0) = Some None"
proof -
  let ?u = "uniforms_of sliver_mesh (merge_config near_config)"
  let ?p = "Vec3 0 (- 1) (- 1)"
  let ?t = "(Vec3 0 0 0, Vec3 1 0 0, Vec3 2 0 0)"
  have tri: "get_triangle (vertices sliver_mesh) (indices sliver_mesh) 0 = Some ?t"
    by (simp add: sliver_mesh_def get_triangle_def get_vertex_def buffer_read_def)
  have dn: "denom (Vec3 0 0 0) (Vec3 1 0 0) (Vec3 2 0 0) = 0"
    by (simp add: denom_def Let_def vec_defs)
  have c: "voxel_center ?u (0, 0, 0) = Some ?p"
    by (simp add: sliver_uniforms voxel_center_def div3_def fdiv_def vec_defs)
  have d: "point_triangle_distance ?p (Vec3 0 0 0) (Vec3 1 0 0) (Vec3 2 0 0) = Some (sqrt 2)"
    by (simp add: point_triangle_distance_def Let_def vec_defs)
  have cr: "cross (sub3 (Vec3 1 0 0) (Vec3 0 0 0)) (sub3 (Vec3 2 0 0) (Vec3 0 0 0)) = Vec3 0 0 0"
    by (simp add: vec_defs)
  have nrm: "triangle_normal (Vec3 0 0 0) (Vec3 1 0 0) (Vec3 2 0 0) = None"
    by (simp add: triangle_normal_def normalize3_def div3_def fdiv_def cr) (simp add: length3_def dot_def)
  have sg: "compute_sign ?p (Vec3 0 0 0) (Vec3 1 0 0) (Vec3 2 0 0) = None"
    by (rule compute_sign_degenerate[OF cr])
  have r: "(0::nat) < u32 (uni_resolution ?u)" by (simp add: sliver_uniforms u32_def)
  have t: "\<forall>j<u32 (triangle_count ?u). get_triangle (vertices sliver_mesh) (indices sliver_mesh) j =
       Some ((\<lambda>_. ?t) j) \<and> tri_dist ?p ((\<lambda>_. ?t) j) = Some ((\<lambda>_. sqrt 2) j)"
    using tri d by (simp add: sliver_uniforms u32_def tri_dist_def)
  have k: "(0::nat) < u32 (triangle_count ?u)" "(\<lambda>_. sqrt 2) (0::nat) < 10 ^ 10"
      "\<forall>j<u32 (triangle_count ?u). (\<lambda>_. sqrt 2) (0::nat) \<le> (\<lambda>_. sqrt 2) j"
      "\<forall>j<(0::nat). (\<lambda>_. sqrt 2) (0::nat) < (\<lambda>_. sqrt 2) j"
    by (simp_all add: sliver_uniforms u32_def real_less_lsqrt)
  have m: "main ?u (vertices sliver_mesh) (indices sliver_mesh) (0, 0, 0) = Some None"
    using main_winner(2)[OF r r r c t k] sg by (simp add: tri_sign_def)
  from tri dn c d cr nrm sg m show ?thesis by blast
qed

text \<open>
  The sign against a triangle that spans a plane does not depend on the length of the
  normal.
\<close>

lemma dot_scale3: "dot (scale3 c v) w = c * dot v w"
  by (simp add: dot_def scale3_def algebra_simps)

lemma tri_sign_cross:
  assumes "cross (sub3 b a) (sub3 c a) \<noteq> Vec3 0 0 0"
  shows "tri_sign p (a, b, c) =
     Some (sgn (dot (cross (sub3 b a) (sub3 c a)) (sub3 p (scale3 (1/3) (add3 (add3 a b) c)))))"
proof -
  let ?c = "cross (sub3 b a) (sub3 c a)"
  from compute_sign_nondegenerate[OF assms, of p]
  have s: "compute_sign p a b c =
      Some (sgn (dot (scale3 (1 / length3 ?c) ?c) (sub3 p (scale3 (1/3) (add3 (add3 a b) c)))))"
    and l: "length3 (scale3 (1 / length3 ?c) ?c) = 1"
    by auto
  have "length3 ?c \<noteq> 0"
  proof
    assume "length3 ?c = 0"
    then have "length3 (scale3 (1 / length3 ?c) ?c) = 0" by (simp add: vec_defs)
    with l show False by simp
  qed
  moreover have "0 \<le> length3 ?c" by (simp add: length3_def dot_def)
  ultimately have "0 < 1 / length3 ?c" by simp
  then show ?thesis
    by (simp add: tri_sign_def s dot_scale3 sgn_mult)
qed














text \<open>The pair of triangles, evaluated.\<close>

lemma pair_tris:
  "get_triangle (vertices pair_mesh) (indices pair_mesh) 0 = Some (Vec3 0 0 0, Vec3 1 0 0, Vec3 0 1 0)"
  "get_triangle (vertices pair_mesh) (indices pair_mesh) 1 =
     Some (Vec3 0 (- 1) (47 / 100), Vec3 3 (- 1) (47 / 100), Vec3 0 3 (47 / 100))"
  by (simp_all add: pair_mesh_def get_triangle_def get_vertex_def buffer_read_def)

lemma pair_dist0: "tri_dist (Vec3 1 (1/2) (1/10)) (Vec3 0 0 0, Vec3 1 0 0, Vec3 0 1 0) =
     Some (sqrt (67 / 450))"
  by (simp add: tri_dist_def point_triangle_distance_def Let_def fdiv_def vec_defs power2_eq_square)

lemma sqrt_37: "sqrt (1369 / 10000) = 37 / 100"
  by (rule real_sqrt_unique) (simp_all add: power2_eq_square)

lemma pair_dist1: "tri_dist (Vec3 1 (1/2) (1/10))
     (Vec3 0 (- 1) (47 / 100), Vec3 3 (- 1) (47 / 100), Vec3 0 3 (47 / 100)) = Some (37 / 100)"
  by (simp add: tri_dist_def point_triangle_distance_def Let_def fdiv_def vec_defs power2_eq_square sqrt_37)

lemma pair_order: "37 / 100 < sqrt (67 / 450)" "sqrt (27 / 200) < 37 / 100"
  by (rule real_less_rsqrt, simp add: power2_eq_square)
     (rule real_less_lsqrt, simp_all add: power2_eq_square)

text \<open>
  The triangle that wins the loop is the one of least \<open>point_triangle_distance\<close>, which
  need not be the nearest one. At the sample point \<open>(1, 0.5, 0.1)\<close> the loop over the pair
  of triangles picks triangle 1, at \<open>0.37\<close>, with sign \<open>- 1\<close>; the point \<open>(3/4, 1/4, 0)\<close>
  of triangle 0 is nearer, and the sign against triangle 0 is \<open>+ 1\<close>.
\<close>

lemma winner_not_nearest:
  "tri_loop (vertices pair_mesh) (indices pair_mesh) (Vec3 1 (1/2) (1/10)) 2 0 (10 ^ 10, 0) =
     Some (37 / 100, 1) \<and>
   tri_sign (Vec3 1 (1/2) (1/10))
     (Vec3 0 (- 1) (47 / 100), Vec3 3 (- 1) (47 / 100), Vec3 0 3 (47 / 100)) = Some (- 1) \<and>
   add3 (add3 (Vec3 0 0 0) (scale3 (3/4) (sub3 (Vec3 1 0 0) (Vec3 0 0 0))))
        (scale3 (1/4) (sub3 (Vec3 0 1 0) (Vec3 0 0 0))) = Vec3 (3/4) (1/4) 0 \<and>
   length3 (sub3 (Vec3 1 (1/2) (1/10)) (Vec3 (3/4) (1/4) 0)) = sqrt (27 / 200) \<and>
   sqrt (27 / 200) < 37 / 100 \<and>
   tri_sign (Vec3 1 (1/2) (1/10)) (Vec3 0 0 0, Vec3 1 0 0, Vec3 0 1 0) = Some 1"
proof -
  let ?p = "Vec3 1 (1/2) (1/10)"
  let ?T = "\<lambda>j::nat. if j = 0 then (Vec3 0 0 0, Vec3 1 0 0, Vec3 0 1 0)
                      else (Vec3 0 (- 1) (47 / 100), Vec3 3 (- 1) (47 / 100), Vec3 0 3 (47 / 100))"
  let ?D = "\<lambda>j::nat. if j = 0 then sqrt (67 / 450) else 37 / 100 :: real"
  have lt2: "\<And>j::nat. j < 2 \<Longrightarrow> j = 0 \<or> j = 1" by auto
  have t: "\<forall>j. 0 \<le> j \<and> j < 2 \<longrightarrow> get_triangle (vertices pair_mesh) (indices pair_mesh) j =
       Some (?T j) \<and> tri_dist ?p (?T j) = Some (?D j)"
    using pair_tris pair_dist0 pair_dist1 by (auto dest!: lt2)
  have loop: "tri_loop (vertices pair_mesh) (indices pair_mesh) ?p 2 0 (10 ^ 10, 0) = Some (?D 1, 1)"
    by (rule tri_loop_winner[where T = ?T, OF t]) (use pair_order(1) in \<open>auto dest!: lt2\<close>)
  have s1: "tri_sign ?p (Vec3 0 (- 1) (47 / 100), Vec3 3 (- 1) (47 / 100), Vec3 0 3 (47 / 100)) = Some (- 1)"
    by (simp add: tri_sign_cross vec_defs)
  have s0: "tri_sign ?p (Vec3 0 0 0, Vec3 1 0 0, Vec3 0 1 0) = Some 1"
    by (simp add: tri_sign_cross vec_defs)
  have pt: "add3 (add3 (Vec3 0 0 0) (scale3 (3/4) (sub3 (Vec3 1 0 0) (Vec3 0 0 0))))
        (scale3 (1/4) (sub3 (Vec3 0 1 0) (Vec3 0 0 0))) = Vec3 (3/4) (1/4) 0"
    by (simp add: vec_defs)
  have d: "length3 (sub3 ?p (Vec3 (3/4) (1/4) 0)) = sqrt (27 / 200)"
    by (simp add: vec_defs power2_eq_square)
  from loop s1 pt d pair_order(2) s0 show ?thesis by simp
qed

section \<open>The conversion\<close>

text \<open>
  A run of device calls returns when none of them throws, and then has applied and
  logged all of them; otherwise its error is the exception of a call that throws.
\<close>

lemma run_ok:
  "\<forall>op\<in>set ops. \<not> throws be op \<Longrightarrow>
   run be ops s = (None, s\<lparr>live := fold effect ops (live s), calls := calls s @ ops\<rparr>)"
  by (induction ops arbitrary: s) simp_all

lemma run_error:
  "run be ops s = (Some e, s') \<Longrightarrow> \<exists>op\<in>set ops. e = Thrown op \<and> throws be op"
  by (induction ops arbitrary: s) (auto split: if_splits)

lemma run_None_no_throw:
  "run be ops s = (None, s') \<Longrightarrow> \<forall>op\<in>set ops. \<not> throws be op"
  by (induction ops arbitrary: s) (auto split: if_splits)

lemma run_None:
  assumes "run be ops s = (None, s')"
  shows "(\<forall>op\<in>set ops. \<not> throws be op) \<and>
   s' = s\<lparr>live := fold effect ops (live s), calls := calls s @ ops\<rparr>"
  using run_None_no_throw[OF assms] run_ok[of ops be s] assms by simp

lemma computeDistanceField_Inr:
  assumes "computeDistanceField be mesh config s = (Inr df, s')"
  shows "(\<forall>op\<in>set (setup_ops (merge_config config) @ cleanup_ops). \<not> throws be op) \<and>
     df = \<lparr>texture = dispatch (uniforms_of mesh (merge_config config)) (vertices mesh) (indices mesh)
                       (schedule be (nat \<lceil>resolution (merge_config config) / 8\<rceil>)) (\<lambda>g. None),
           df_resolution = resolution (merge_config config),
           df_bounds = volumeBounds_of (bounds mesh) (padding (merge_config config)),
           voxelSize = fdiv (halfExtent_of (bounds mesh) (padding (merge_config config)) * 2)
                         (resolution (merge_config config))\<rparr> \<and>
     s' = s\<lparr>live := fold effect (setup_ops (merge_config config) @ cleanup_ops) (live s),
            calls := calls s @ setup_ops (merge_config config) @ cleanup_ops\<rparr>"
proof -
  obtain r1 s1 where r1: "run be (setup_ops (merge_config config)) s = (r1, s1)" by force
  obtain r2 s2 where r2: "run be cleanup_ops s1 = (r2, s2)" by force
  from assms r1 r2 have n: "r1 = None" "r2 = None"
    by (auto simp: computeDistanceField_def Let_def split: option.splits)
  from assms r1 r2 n have df: "df = \<lparr>texture = dispatch (uniforms_of mesh (merge_config config)) (vertices mesh) (indices mesh)
                       (schedule be (nat \<lceil>resolution (merge_config config) / 8\<rceil>)) (\<lambda>g. None),
           df_resolution = resolution (merge_config config),
           df_bounds = volumeBounds_of (bounds mesh) (padding (merge_config config)),
           voxelSize = fdiv (halfExtent_of (bounds mesh) (padding (merge_config config)) * 2)
                         (resolution (merge_config config))\<rparr>" and s': "s' = s2"
    by (auto simp: computeDistanceField_def Let_def)
  from run_None[OF r1[unfolded n]] run_None[OF r2[unfolded n]] df s'
  show ?thesis by auto
qed

lemma computeDistanceField_ok:
  assumes "\<forall>op\<in>set (setup_ops (merge_config config) @ cleanup_ops). \<not> throws be op"
  shows "computeDistanceField be mesh config s =
     (Inr \<lparr>texture = dispatch (uniforms_of mesh (merge_config config)) (vertices mesh) (indices mesh)
                       (schedule be (nat \<lceil>resolution (merge_config config) / 8\<rceil>)) (\<lambda>g. None),
           df_resolution = resolution (merge_config config),
           df_bounds = volumeBounds_of (bounds mesh) (padding (merge_config config)),
           voxelSize = fdiv (halfExtent_of (bounds mesh) (padding (merge_config config)) * 2)
                         (resolution (merge_config config))\<rparr>,
      s\<lparr>live := fold effect (setup_ops (merge_config config) @ cleanup_ops) (live s),
            calls := calls s @ setup_ops (merge_config config) @ cleanup_ops\<rparr>)"
proof -
  have a: "\<forall>op\<in>set (setup_ops (merge_config config)). \<not> throws be op"
    and b: "\<forall>op\<in>set cleanup_ops. \<not> throws be op"
    using assms by auto
  show ?thesis
    by (simp add: computeDistanceField_def Let_def run_ok[OF a] run_ok[OF b])
qed

lemma computeDistanceField_Inl:
  assumes "computeDistanceField be mesh config s = (Inl e, s')"
  shows "\<exists>op\<in>set (setup_ops (merge_config config) @ cleanup_ops). e = Thrown op \<and> throws be op"
proof -
  obtain r1 s1 where r1: "run be (setup_ops (merge_config config)) s = (r1, s1)" by force
  obtain r2 s2 where r2: "run be cleanup_ops s1 = (r2, s2)" by force
  show ?thesis
  proof (cases r1)
    case (Some e1)
    with assms r1 have "e = e1" by (simp add: computeDistanceField_def Let_def)
    with run_error[OF r1[unfolded Some]] show ?thesis by auto
  next
    case None
    with assms r1 r2 have "r2 = Some e"
      by (cases r2) (auto simp: computeDistanceField_def Let_def)
    with run_error[of be cleanup_ops s1 e s2] r2 show ?thesis by auto
  qed
qed

lemma live_after_success:
  "fold effect (setup_ops cfg @ cleanup_ops) lv = lv(OutputTexture := lv OutputTexture + 1)"
  by (rule ext) (simp add: setup_ops_def cleanup_ops_def effect_def)

lemma ok_backend_no_throw: "\<forall>op\<in>set ops. \<not> throws ok_backend op"
  by (simp add: ok_backend_def)

lemma reversed_backend_no_throw: "\<forall>op\<in>set ops. \<not> throws reversed_backend op"
  by (simp add: reversed_backend_def)

text \<open>
  Claim C4. The volume a conversion returns is the cube centred at the midpoint
  \<open>(min + max) / 2\<close> of the mesh bounds whose half-extent on every axis is the largest
  of the three extents \<open>max - min\<close> of the mesh bounds times \<open>(1 + padding) / 2\<close>, and the
  voxel size returned is twice that half-extent over the resolution. Padding and
  resolution are the configured ones, 0.1 and 64 where the configuration leaves them
  out.
\<close>

theorem volume_is_padded_cube:
  assumes "computeDistanceField be mesh config s = (Inr df, s')"
    and "pad = (case opt_padding config of None \<Rightarrow> 1 / 10 | Some q \<Rightarrow> q)"
    and "res = (case opt_resolution config of None \<Rightarrow> 64 | Some r \<Rightarrow> r)"
    and "lo = box_min (bounds mesh)"
    and "hi = box_max (bounds mesh)"
    and "c = Vec3 ((vx lo + vx hi) / 2) ((vy lo + vy hi) / 2) ((vz lo + vz hi) / 2)"
    and "h = max (max (vx hi - vx lo) (vy hi - vy lo)) (vz hi - vz lo) * (1 + pad) / 2"
  shows "df_bounds df = \<lparr>box_min = Vec3 (vx c - h) (vy c - h) (vz c - h),
                          box_max = Vec3 (vx c + h) (vy c + h) (vz c + h)\<rparr> \<and>
         (vx (box_min (df_bounds df)) + vx (box_max (df_bounds df))) / 2 = vx c \<and>
         (vy (box_min (df_bounds df)) + vy (box_max (df_bounds df))) / 2 = vy c \<and>
         (vz (box_min (df_bounds df)) + vz (box_max (df_bounds df))) / 2 = vz c \<and>
         vx (box_max (df_bounds df)) - vx (box_min (df_bounds df)) = 2 * h \<and>
         vy (box_max (df_bounds df)) - vy (box_min (df_bounds df)) = 2 * h \<and>
         vz (box_max (df_bounds df)) - vz (box_min (df_bounds df)) = 2 * h \<and>
         boundsCenter (df_bounds df) = c \<and>
         boundsSize (df_bounds df) = Vec3 (2 * h) (2 * h) (2 * h) \<and>
         (res \<noteq> 0 \<longrightarrow> voxelSize df = Some (2 * h / res))"
proof -
  let ?cfg = "merge_config config"
  have pad: "padding ?cfg = pad" and res: "resolution ?cfg = res"
    by (simp_all add: merge_config_def DEFAULT_CONFIG_def assms(2,3) split: option.splits)
  from computeDistanceField_Inr[OF assms(1)]
  have b: "df_bounds df = volumeBounds_of (bounds mesh) pad"
    and v: "voxelSize df = fdiv (halfExtent_of (bounds mesh) pad * 2) res"
    by (simp_all add: pad res)
  have hh: "halfExtent_of (bounds mesh) pad = h"
    by (simp add: halfExtent_of_def boundsSize_def Let_def assms(4,5,7))
  have cc: "boundsCenter (bounds mesh) = c"
    by (simp add: boundsCenter_def assms(4,5,6))
  have box: "df_bounds df = \<lparr>box_min = Vec3 (vx c - h) (vy c - h) (vz c - h),
                          box_max = Vec3 (vx c + h) (vy c + h) (vz c + h)\<rparr>"
    by (simp add: b volumeBounds_of_def Let_def hh cc)
  have ce: "boundsCenter (df_bounds df) = c"
    by (cases c) (simp add: boundsCenter_def box)
  have sz: "boundsSize (df_bounds df) = Vec3 (2 * h) (2 * h) (2 * h)"
    by (simp add: boundsSize_def box)
  have vs: "res \<noteq> 0 \<longrightarrow> voxelSize df = Some (2 * h / res)"
    by (simp add: v hh fdiv_def mult.commute)
  from box ce sz vs show ?thesis by simp
qed

lemma ok_backend_success:
  "computeDistanceField ok_backend mesh config s =
     (Inr (projr (fst (computeDistanceField ok_backend mesh config s))),
      snd (computeDistanceField ok_backend mesh config s))"
  by (subst (1 2 3) computeDistanceField_ok[OF ok_backend_no_throw]) simp

theorem volume_is_padded_cube_witness:
  "df_bounds (projr (fst (computeDistanceField ok_backend skew_mesh near_config gpu0))) =
     \<lparr>box_min = Vec3 (- (15/2)) (- (15/2)) (- (15/2)), box_max = Vec3 (21/2) (21/2) (21/2)\<rparr> \<and>
   voxelSize (projr (fst (computeDistanceField ok_backend skew_mesh near_config gpu0))) = Some 9 \<and>
   df_bounds (projr (fst (computeDistanceField ok_backend skew_mesh no_config gpu0))) =
     \<lparr>box_min = Vec3 (- (69/20)) (- (69/20)) (- (69/20)), box_max = Vec3 (129/20) (129/20) (129/20)\<rparr> \<and>
   voxelSize (projr (fst (computeDistanceField ok_backend skew_mesh no_config gpu0))) = Some (99/640)"
proof -
  let ?d1 = "projr (fst (computeDistanceField ok_backend skew_mesh near_config gpu0))"
  let ?d2 = "projr (fst (computeDistanceField ok_backend skew_mesh no_config gpu0))"
  have 1: "df_bounds ?d1 =
     \<lparr>box_min = Vec3 (- (15/2)) (- (15/2)) (- (15/2)), box_max = Vec3 (21/2) (21/2) (21/2)\<rparr> \<and>
     voxelSize ?d1 = Some 9"
    using volume_is_padded_cube [OF ok_backend_success refl refl refl refl refl refl,
        of skew_mesh near_config gpu0]
    by (simp add: near_config_def skew_mesh_def)
  have 2: "df_bounds ?d2 =
     \<lparr>box_min = Vec3 (- (69/20)) (- (69/20)) (- (69/20)), box_max = Vec3 (129/20) (129/20) (129/20)\<rparr> \<and>
     voxelSize ?d2 = Some (99/640)"
    using volume_is_padded_cube [OF ok_backend_success refl refl refl refl refl refl,
        of skew_mesh no_config gpu0]
    by (simp add: no_config_def skew_mesh_def)
  from 1 2 show ?thesis by simp
qed

text \<open>
  Claim C7, on the path the source covers. A conversion that returns has destroyed the
  vertex, index and uniform buffers it created: the number of live buffers of each
  kind is what it was before the call, and the output texture is the one resource that
  stays allocated.
\<close>

theorem buffers_released_on_success:
  assumes "computeDistanceField be mesh config s = (Inr df, s')"
  shows "live s' VertexBuffer = live s VertexBuffer \<and>
         live s' IndexBuffer = live s IndexBuffer \<and>
         live s' UniformBuffer = live s UniformBuffer \<and>
         live s' OutputTexture = live s OutputTexture + 1 \<and>
         calls s' = calls s @ setup_ops (merge_config config) @
            [OnSubmittedWorkDone, Destroy VertexBuffer, Destroy IndexBuffer, Destroy UniformBuffer]"
proof -
  from computeDistanceField_Inr[OF assms]
  have s': "s' = s\<lparr>live := fold effect (setup_ops (merge_config config) @ cleanup_ops) (live s),
            calls := calls s @ setup_ops (merge_config config) @ cleanup_ops\<rparr>"
    by blast
  have l: "live s' = (live s)(OutputTexture := live s OutputTexture + 1)"
    unfolding s' by (simp add: live_after_success del: fold_append)
  have c: "calls s' = calls s @ setup_ops (merge_config config) @ cleanup_ops"
    unfolding s' by simp
  from l c show ?thesis by (simp add: cleanup_ops_def)
qed

theorem buffers_released_on_success_witness:
  "live (snd (computeDistanceField ok_backend unit_mesh near_config gpu0)) VertexBuffer = 0 \<and>
   live (snd (computeDistanceField ok_backend unit_mesh near_config gpu0)) IndexBuffer = 0 \<and>
   live (snd (computeDistanceField ok_backend unit_mesh near_config gpu0)) UniformBuffer = 0 \<and>
   live (snd (computeDistanceField ok_backend unit_mesh near_config gpu0)) OutputTexture = 1"
  using buffers_released_on_success [OF ok_backend_success, of unit_mesh near_config gpu0]
  by (simp add: gpu0_def)

text \<open>
  Claim C7 as stated fails on a failure path: when the creation of the index buffer
  throws, the exception leaves the function with the vertex buffer (and the texture)
  created and not destroyed.
\<close>

theorem buffers_leak_on_failure:
  "fst (computeDistanceField exhausted_backend unit_mesh near_config gpu0) =
     Inl (Thrown (CreateBuffer IndexBuffer)) \<and>
   calls (snd (computeDistanceField exhausted_backend unit_mesh near_config gpu0)) =
     [CreateTexture 2, CreateBuffer VertexBuffer] \<and>
   live (snd (computeDistanceField exhausted_backend unit_mesh near_config gpu0)) VertexBuffer = 1"
  by (simp add: computeDistanceField_def Let_def setup_ops_def exhausted_backend_def gpu0_def
      effect_def merge_config_def near_config_def)

text \<open>
  Claim C1, as the source has it. The conversion checks neither the configuration nor
  the mesh. Its first call on the device is the creation of the texture with the
  resolution as configured. It returns a distance field whenever no call on the device
  throws, and an error it raises is the exception of a device call that threw.
\<close>

theorem conversion_does_not_validate:
  "(\<exists>ops. setup_ops (merge_config config) = CreateTexture (resolution (merge_config config)) # ops) \<and>
   ((\<forall>op\<in>set (setup_ops (merge_config config) @ cleanup_ops). \<not> throws be op) \<longrightarrow>
      (\<exists>df s'. computeDistanceField be mesh config s = (Inr df, s') \<and>
         df_resolution df = resolution (merge_config config) \<and>
         calls s' = calls s @ setup_ops (merge_config config) @ cleanup_ops)) \<and>
   (\<forall>e s'. computeDistanceField be mesh config s = (Inl e, s') \<longrightarrow>
      (\<exists>op\<in>set (setup_ops (merge_config config) @ cleanup_ops). e = Thrown op \<and> throws be op))"
proof (intro conjI impI allI)
  show "\<exists>ops. setup_ops (merge_config config) = CreateTexture (resolution (merge_config config)) # ops"
    by (simp add: setup_ops_def)
next
  assume "\<forall>op\<in>set (setup_ops (merge_config config) @ cleanup_ops). \<not> throws be op"
  from computeDistanceField_ok[OF this]
  show "\<exists>df s'. computeDistanceField be mesh config s = (Inr df, s') \<and>
         df_resolution df = resolution (merge_config config) \<and>
         calls s' = calls s @ setup_ops (merge_config config) @ cleanup_ops"
    by simp
next
  fix e s'
  assume "computeDistanceField be mesh config s = (Inl e, s')"
  then show "\<exists>op\<in>set (setup_ops (merge_config config) @ cleanup_ops). e = Thrown op \<and> throws be op"
    by (rule computeDistanceField_Inl)
qed

theorem conversion_does_not_validate_witness:
  "(\<exists>df s'. computeDistanceField ok_backend empty_mesh zero_config gpu0 = (Inr df, s') \<and>
      df_resolution df = 0 \<and>
      calls s' = setup_ops (merge_config zero_config) @ cleanup_ops)"
  using conversion_does_not_validate [of zero_config ok_backend empty_mesh gpu0]
  by (simp add: ok_backend_def merge_config_def zero_config_def gpu0_def)

text \<open>
  Claim C1 as stated fails: with a resolution of 0, and with a mesh of no vertex and no
  triangle, a conversion on a device that does not throw returns a distance field
  after allocating a texture.
\<close>

theorem no_validation_errors:
  "\<not> isl (fst (computeDistanceField ok_backend unit_mesh zero_config gpu0)) \<and>
   df_resolution (projr (fst (computeDistanceField ok_backend unit_mesh zero_config gpu0))) = 0 \<and>
   hd (calls (snd (computeDistanceField ok_backend unit_mesh zero_config gpu0))) = CreateTexture 0 \<and>
   live (snd (computeDistanceField ok_backend unit_mesh zero_config gpu0)) OutputTexture = 1 \<and>
   \<not> isl (fst (computeDistanceField ok_backend empty_mesh no_config gpu0)) \<and>
   df_resolution (projr (fst (computeDistanceField ok_backend empty_mesh no_config gpu0))) = 64 \<and>
   hd (calls (snd (computeDistanceField ok_backend empty_mesh no_config gpu0))) = CreateTexture 64 \<and>
   live (snd (computeDistanceField ok_backend empty_mesh no_config gpu0)) OutputTexture = 1"
  by (simp add: computeDistanceField_ok[OF ok_backend_no_throw] live_after_success del: fold_append)
     (simp add: setup_ops_def merge_config_def zero_config_def no_config_def gpu0_def DEFAULT_CONFIG_def)

text \<open>
  Each invocation writes its own cell and reads no cell, so a dispatch leaves in every
  cell it reaches the value of that cell's invocation, whatever the order.
\<close>

lemma invoke_cell:
  "invoke u vs is a tex g =
     (if g = a then (case main u vs is a of None \<Rightarrow> tex a | Some c \<Rightarrow> Some c) else tex g)"
  by (simp add: invoke_def textureStore_def split: option.splits)

lemma dispatch_cell:
  "dispatch u vs is order tex g =
     (if g \<in> set order then (case main u vs is g of None \<Rightarrow> tex g | Some c \<Rightarrow> Some c) else tex g)"
  unfolding dispatch_def
proof (induction order arbitrary: tex)
  case Nil
  then show ?case by simp
next
  case (Cons a order)
  have "fold (invoke u vs is) (a # order) tex g =
        fold (invoke u vs is) order (invoke u vs is a tex) g"
    by simp
  also have "\<dots> = (if g \<in> set order
       then (case main u vs is g of None \<Rightarrow> invoke u vs is a tex g | Some c \<Rightarrow> Some c)
       else invoke u vs is a tex g)"
    by (rule Cons.IH)
  also have "\<dots> = (if g \<in> set (a # order)
       then (case main u vs is g of None \<Rightarrow> tex g | Some c \<Rightarrow> Some c) else tex g)"
    by (simp add: invoke_cell split: option.splits)
  finally show ?case .
qed

lemma set_row_major: "set (row_major n) = invocations n"
  by (force simp: row_major_def invocations_def)

lemma u32_le_grid: "u32 r \<le> 8 * nat \<lceil>r / 8\<rceil>"
proof (cases "r \<le> 0")
  case True
  then show ?thesis by (simp add: u32_def)
next
  case False
  have "r / 8 \<le> of_int \<lceil>r / 8\<rceil>" by (rule le_of_int_ceiling)
  then have "r \<le> of_int (8 * \<lceil>r / 8\<rceil>)" by simp linarith
  then have "\<lfloor>r\<rfloor> \<le> \<lfloor>(of_int (8 * \<lceil>r / 8\<rceil>))::real\<rfloor>" by (rule floor_mono)
  then have "\<lfloor>r\<rfloor> \<le> 8 * \<lceil>r / 8\<rceil>" by (simp only: floor_of_int)
  then have "nat \<lfloor>r\<rfloor> \<le> nat (8 * \<lceil>r / 8\<rceil>)" by simp
  also have "\<dots> = 8 * nat \<lceil>r / 8\<rceil>" by (simp add: nat_mult_distrib)
  finally show ?thesis using False by (simp add: u32_def)
qed

lemma main_outside:
  "g \<notin> invocations (nat \<lceil>uni_resolution u / 8\<rceil>) \<Longrightarrow> main u vs is g = None"
  using u32_le_grid[of "uni_resolution u"]
  by (cases g) (auto simp: invocations_def main_def Let_def)

lemma dispatch_full:
  assumes "set order = invocations (nat \<lceil>uni_resolution u / 8\<rceil>)"
  shows "dispatch u vs is order (\<lambda>g. None) = main u vs is"
proof
  fix g
  show "dispatch u vs is order (\<lambda>g. None) g = main u vs is g"
    using main_outside[of g u vs "is"] assms
    by (cases "main u vs is g") (auto simp: dispatch_cell)
qed

text \<open>
  Claim C8. Whatever the order in which the device runs the invocations of the
  dispatch, two conversions of the same mesh and configuration that return give the
  same distance field, and each cell of its grid is the value \<open>main\<close> computes for that
  cell from the mesh arrays and the configuration alone.
\<close>

theorem conversion_deterministic:
  assumes "computeDistanceField be1 mesh config s1 = (Inr df1, s1')"
    and "computeDistanceField be2 mesh config s2 = (Inr df2, s2')"
    and "n = nat \<lceil>resolution (merge_config config) / 8\<rceil>"
    and "set (schedule be1 n) = invocations n"
    and "set (schedule be2 n) = invocations n"
  shows "df1 = df2 \<and>
         texture df1 = main (uniforms_of mesh (merge_config config)) (vertices mesh) (indices mesh)"
proof -
  let ?u = "uniforms_of mesh (merge_config config)"
  have r: "uni_resolution ?u = resolution (merge_config config)"
    by (simp add: uniforms_of_def Let_def)
  have t1: "dispatch ?u (vertices mesh) (indices mesh) (schedule be1 n) (\<lambda>g. None) =
            main ?u (vertices mesh) (indices mesh)"
    by (rule dispatch_full) (use assms(4) in \<open>simp add: assms(3) r\<close>)
  have t2: "dispatch ?u (vertices mesh) (indices mesh) (schedule be2 n) (\<lambda>g. None) =
            main ?u (vertices mesh) (indices mesh)"
    by (rule dispatch_full) (use assms(5) in \<open>simp add: assms(3) r\<close>)
  from computeDistanceField_Inr[OF assms(1)] computeDistanceField_Inr[OF assms(2)] t1 t2 assms(3)
  show ?thesis by simp
qed

lemma reversed_backend_success:
  "computeDistanceField reversed_backend mesh config s =
     (Inr (projr (fst (computeDistanceField reversed_backend mesh config s))),
      snd (computeDistanceField reversed_backend mesh config s))"
  by (subst (1 2 3) computeDistanceField_ok[OF reversed_backend_no_throw]) simp

theorem conversion_deterministic_witness:
  "projr (fst (computeDistanceField ok_backend unit_mesh near_config gpu0)) =
   projr (fst (computeDistanceField reversed_backend unit_mesh near_config gpu0)) \<and>
   texture (projr (fst (computeDistanceField reversed_backend unit_mesh near_config gpu0))) =
     main (uniforms_of unit_mesh (merge_config near_config)) (vertices unit_mesh) (indices unit_mesh)"
proof -
  have a: "set (schedule ok_backend (nat \<lceil>resolution (merge_config near_config) / 8\<rceil>)) =
           invocations (nat \<lceil>resolution (merge_config near_config) / 8\<rceil>)"
    by (simp add: ok_backend_def set_row_major)
  have b: "set (schedule reversed_backend (nat \<lceil>resolution (merge_config near_config) / 8\<rceil>)) =
           invocations (nat \<lceil>resolution (merge_config near_config) / 8\<rceil>)"
    by (simp add: reversed_backend_def set_row_major)
  from conversion_deterministic [OF ok_backend_success reversed_backend_success refl a b,
      of unit_mesh gpu0 gpu0]
  show ?thesis by (elim conjE) (simp only: simp_thms)
qed

section \<open>The OBJ loader\<close>

text \<open>
  Every index a face contributes has passed the range check, and the fan only repeats
  indices of the face, three per triangle.
\<close>

lemma face_index_range:
  "face_index part vc lnum = Inr i \<Longrightarrow> int i < vc"
  by (auto simp: face_index_def Let_def split: option.splits if_splits)

lemma face_indices_range:
  "face_indices ps vc lnum = Inr fi \<Longrightarrow> (\<forall>i\<in>set fi. int i < vc) \<and> length fi = length ps"
proof (induction ps arbitrary: fi)
  case Nil
  then show ?case by simp
next
  case (Cons p ps)
  then show ?case
    by (auto split: sum.splits dest: face_index_range)
qed

lemma fan_set: "set (fan fi) \<subseteq> set fi"
proof -
  have "\<And>i. 1 \<le> i \<Longrightarrow> i < length fi - 1 \<Longrightarrow>
          fi ! 0 \<in> set fi \<and> fi ! i \<in> set fi \<and> fi ! (i + 1) \<in> set fi"
  proof -
    fix i assume "1 \<le> i" "i < length fi - 1"
    then have "0 < length fi" "i < length fi" "i + 1 < length fi" by auto
    then show "fi ! 0 \<in> set fi \<and> fi ! i \<in> set fi \<and> fi ! (i + 1) \<in> set fi"
      using nth_mem by blast
  qed
  then show ?thesis by (auto simp: fan_def)
qed

lemma length_concat_triples: "length (concat (map (\<lambda>i. [f i, g i, h i]) xs)) = 3 * length xs"
  by (induction xs) simp_all

lemma fan_length: "length (fan fi) = 3 * (length fi - 2)"
  by (simp add: fan_def length_concat_triples)

lemma parseVertex_inv:
  assumes "parseVertex pf parts verts lnum = Inr verts'" "loader_inv verts inds"
  shows "loader_inv verts' inds"
proof -
  from assms(1) obtain x y z where "verts' = verts @ [x, y, z]"
    by (auto simp: parseVertex_def split: if_splits option.splits)
  then have len: "length verts' = length verts + 3" by simp
  from assms(2) have d: "3 dvd length verts" "3 dvd length inds"
    and r: "\<forall>i\<in>set inds. i < length verts div 3"
    by (simp_all add: loader_inv_def)
  have "3 dvd length verts'" using d(1) len by presburger
  moreover have "length verts div 3 \<le> length verts' div 3" using len by presburger
  ultimately show ?thesis using d(2) r by (fastforce simp: loader_inv_def)
qed

lemma parseFace_inv:
  assumes "parseFace parts inds (int (length verts div 3)) lnum = Inr inds'" "loader_inv verts inds"
  shows "loader_inv verts inds'"
proof -
  from assms(1) obtain fi where fi: "face_indices (drop 1 parts) (int (length verts div 3)) lnum = Inr fi"
    and inds': "inds' = inds @ fan fi"
    by (auto simp: parseFace_def split: if_splits sum.splits)
  from face_indices_range[OF fi] have r: "\<forall>i\<in>set fi. i < length verts div 3" by auto
  with fan_set[of fi] have "\<forall>i\<in>set (fan fi). i < length verts div 3" by blast
  with assms(2) inds' show ?thesis
    by (auto simp: loader_inv_def fan_length)
qed

lemma parse_lines_invariant:
  "parse_lines pf ls n verts inds = Inr (verts', inds') \<Longrightarrow> loader_inv verts inds \<Longrightarrow>
   loader_inv verts' inds'"
proof (induction ls arbitrary: n verts inds)
  case Nil
  then show ?case by simp
next
  case (Cons l ls)
  show ?case
  proof (cases "length (trim l) = 0 \<or> take 1 (trim l) = ''#''")
    case True
    with Cons.prems(1) have "parse_lines pf ls (n + 1) verts inds = Inr (verts', inds')"
      by (simp add: Let_def)
    from Cons.IH[OF this Cons.prems(2)] show ?thesis .
  next
    case False
    let ?parts = "split_spaces (trim l)"
    show ?thesis
    proof (cases "?parts ! 0 = ''v''")
      case True
      with False Cons.prems(1) obtain v1 where
        v: "parseVertex pf ?parts verts (n + 1) = Inr v1"
        and rest: "parse_lines pf ls (n + 1) v1 inds = Inr (verts', inds')"
        by (auto simp: Let_def split: sum.splits)
      from Cons.IH[OF rest parseVertex_inv[OF v Cons.prems(2)]] show ?thesis .
    next
      case nv: False
      show ?thesis
      proof (cases "?parts ! 0 = ''f''")
        case True
        with False nv Cons.prems(1) obtain i1 where
          f: "parseFace ?parts inds (int (length verts div 3)) (n + 1) = Inr i1"
          and rest: "parse_lines pf ls (n + 1) verts i1 = Inr (verts', inds')"
          by (auto simp: Let_def split: sum.splits)
        from Cons.IH[OF rest parseFace_inv[OF f Cons.prems(2)]] show ?thesis .
      next
        case nf: False
        with False nv Cons.prems(1) have "parse_lines pf ls (n + 1) verts inds = Inr (verts', inds')"
          by (simp add: Let_def)
        from Cons.IH[OF this Cons.prems(2)] show ?thesis .
      qed
    qed
  qed
qed

text \<open>The first file of the tests, step by step.\<close>

lemma tri_lines: "split_on (CHR 0x0A) triangle_obj = [''v 0 0 0'', ''v 1 0 0'', ''v 0 1 0'', ''f 1 2 3'']"
  by (simp add: triangle_obj_def)

lemma triangle_split: "split_spaces ''v 0 0 0'' = [''v'', ''0'', ''0'', ''0'']"
  "split_spaces ''v 1 0 0'' = [''v'', ''1'', ''0'', ''0'']"
  "split_spaces ''v 0 1 0'' = [''v'', ''0'', ''1'', ''0'']"
  "split_spaces ''f 1 2 3'' = [''f'', ''1'', ''2'', ''3'']"
  by (simp_all add: is_space_def)

lemma triangle_trim: "trim ''v 0 0 0'' = ''v 0 0 0''" "trim ''v 1 0 0'' = ''v 1 0 0''"
  "trim ''v 0 1 0'' = ''v 0 1 0''" "trim ''f 1 2 3'' = ''f 1 2 3''"
  by (simp_all add: trim_def is_space_def)

lemma parseInt_digit: "parseInt ''0'' = Some 0" "parseInt ''1'' = Some 1" "parseInt ''2'' = Some 2" "parseInt ''3'' = Some 3"
  by (simp_all add: parseInt_def is_space_def is_digit_def digits_value_def Let_def)

lemma parseVertex_tokens: "parseVertex integer_parseFloat [''v'', ''0'', ''0'', ''0''] vs n = Inr (vs @ [0, 0, 0])"
  "parseVertex integer_parseFloat [''v'', ''1'', ''0'', ''0''] vs n = Inr (vs @ [1, 0, 0])"
  "parseVertex integer_parseFloat [''v'', ''0'', ''1'', ''0''] vs n = Inr (vs @ [0, 1, 0])"
  by (simp_all add: parseVertex_def integer_parseFloat_def parseInt_digit)

lemma face_index_tokens: "face_index ''1'' 3 n = Inr 0" "face_index ''2'' 3 n = Inr 1" "face_index ''3'' 3 n = Inr 2"
  by (simp_all add: face_index_def parseInt_digit)

lemma parseFace_tokens: "parseFace [''f'', ''1'', ''2'', ''3''] is 3 n = Inr (is @ [0, 1, 2])"
  by (simp add: parseFace_def face_index_tokens fan_def)

lemma triangle_content:
  "parseOBJContent integer_parseFloat triangle_obj = Inr ([0, 0, 0, 1, 0, 0, 0, 1, 0], [0, 1, 2])"
  by (simp add: parseOBJContent_def tri_lines triangle_trim triangle_split parseVertex_tokens
      parseFace_tokens del: split_spaces.simps)

lemma parseOBJ_bounds:
  assumes "parseOBJContent pf content = Inr (verts, inds)" "length verts \<noteq> 0"
  shows "\<exists>b. computeBounds verts = Some b"
proof -
  have "loader_inv [] []" by (simp add: loader_inv_def)
  from parse_lines_invariant[OF assms(1)[unfolded parseOBJContent_def] this]
  have "3 dvd length verts" by (simp add: loader_inv_def)
  with assms(2) obtain n where "length verts = 3 * n" "0 < n" by (auto simp: dvd_def)
  from computeBounds_wf[OF this] show ?thesis by simp
qed

text \<open>
  Claim C9. Every mesh \<open>parseOBJ\<close> returns has whole vertices and whole triangles, every
  index of a triangle below the number of vertices, and \<open>triangleCount\<close> equal to the
  number of index triples. A vertex reference that is zero, beyond the vertices read
  so far, or negative beyond them is an error of the face it stands in.
\<close>

theorem parseOBJ_mesh_invariant:
  "(parseOBJ pf content = Inr mesh \<longrightarrow>
      (\<forall>i\<in>set (indices mesh). i < length (vertices mesh) div 3 \<and>
                                  3 * i + 2 < length (vertices mesh)) \<and>
      3 dvd length (vertices mesh) \<and>
      3 dvd length (indices mesh) \<and>
      triangleCount mesh = real (length (indices mesh) div 3)) \<and>
   (parseInt (hd (split_on (CHR ''/'') part)) = Some k \<and> (k = 0 \<or> vc < k \<or> k < - vc) \<longrightarrow>
      isl (face_index part vc lnum))"
proof -
  have A: "parseOBJ pf content = Inr mesh \<longrightarrow>
      (\<forall>i\<in>set (indices mesh). i < length (vertices mesh) div 3 \<and>
                                  3 * i + 2 < length (vertices mesh)) \<and>
      3 dvd length (vertices mesh) \<and>
      3 dvd length (indices mesh) \<and>
      triangleCount mesh = real (length (indices mesh) div 3)"
  proof (rule impI)
  assume ok: "parseOBJ pf content = Inr mesh"
  then obtain verts inds where c: "parseOBJContent pf content = Inr (verts, inds)"
    by (auto simp: parseOBJ_def split: sum.splits)
  have "loader_inv [] []" by (simp add: loader_inv_def)
  from parse_lines_invariant[OF c[unfolded parseOBJContent_def] this]
  have inv: "3 dvd length verts" "3 dvd length inds" "\<forall>i\<in>set inds. i < length verts div 3"
    by (simp_all add: loader_inv_def)
  from ok c have m: "vertices mesh = verts" "indices mesh = map (\<lambda>i. i mod 2 ^ 32) inds"
    "triangleCount mesh = real (length inds) / 3"
    by (auto simp: parseOBJ_def Let_def split: if_splits option.splits)
  have r: "\<forall>i\<in>set (indices mesh). i < length (vertices mesh) div 3"
  proof
    fix i assume "i \<in> set (indices mesh)"
    then obtain j where j: "j \<in> set inds" "i = j mod 2 ^ 32" by (auto simp: m)
    have "j mod 2 ^ 32 \<le> j" by simp
    with j inv(3) show "i < length (vertices mesh) div 3" by (auto simp: m)
  qed
  have r2: "\<forall>i\<in>set (indices mesh). 3 * i + 2 < length (vertices mesh)"
  proof
    fix i assume "i \<in> set (indices mesh)"
    with r have "i < length (vertices mesh) div 3" by blast
    moreover from inv(1) obtain n where "length (vertices mesh) = 3 * n" by (auto simp: m dvd_def)
    ultimately show "3 * i + 2 < length (vertices mesh)" by simp
  qed
  from inv(2) obtain t where t: "length inds = 3 * t" by (auto simp: dvd_def)
  then have tc: "triangleCount mesh = real (length (indices mesh) div 3)" by (simp add: m)
  from r r2 inv tc
  show "(\<forall>i\<in>set (indices mesh). i < length (vertices mesh) div 3 \<and>
                                  3 * i + 2 < length (vertices mesh)) \<and>
      3 dvd length (vertices mesh) \<and>
      3 dvd length (indices mesh) \<and>
      triangleCount mesh = real (length (indices mesh) div 3)"
    by (simp add: m)
  qed
  have B: "parseInt (hd (split_on (CHR ''/'') part)) = Some k \<and> (k = 0 \<or> vc < k \<or> k < - vc) \<longrightarrow>
      isl (face_index part vc lnum)"
    by (auto simp: face_index_def Let_def)
  from A B show ?thesis by (rule conjI)
qed

theorem parseOBJ_mesh_invariant_witness:
  "parseOBJ integer_parseFloat triangle_obj =
     Inr \<lparr>vertices = [0, 0, 0, 1, 0, 0, 0, 1, 0], indices = [0, 1, 2], triangleCount = 1,
          bounds = \<lparr>box_min = Vec3 0 0 0, box_max = Vec3 1 1 0\<rparr>\<rparr> \<and>
   isl (face_index ''4'' 3 4) \<and> isl (face_index ''0'' 3 4) \<and> isl (face_index ''-4'' 3 4)"
proof -
  have b: "computeBounds [0, 0, 0, 1, 0, 0, 0, 1, 0] = Some \<lparr>box_min = Vec3 0 0 0, box_max = Vec3 1 1 0\<rparr>"
    by (simp add: computeBounds_def bounds_loop.simps)
  have p: "parseOBJ integer_parseFloat triangle_obj =
     Inr \<lparr>vertices = [0, 0, 0, 1, 0, 0, 0, 1, 0], indices = [0, 1, 2], triangleCount = 1,
          bounds = \<lparr>box_min = Vec3 0 0 0, box_max = Vec3 1 1 0\<rparr>\<rparr>"
    by (simp add: parseOBJ_def triangle_content b)
  have i4: "parseInt (hd (split_on (CHR ''/'') ''4'')) = Some 4"
    and i0: "parseInt (hd (split_on (CHR ''/'') ''0'')) = Some 0"
    and im: "parseInt (hd (split_on (CHR ''/'') ''-4'')) = Some (- 4)"
    by (simp_all add: parseInt_def is_space_def is_digit_def digits_value_def Let_def)
  from parseOBJ_mesh_invariant [of integer_parseFloat triangle_obj _ "''4''" 4 3 4, THEN conjunct1, rule_format, OF p]
    parseOBJ_mesh_invariant [of integer_parseFloat triangle_obj _ "''4''" 4 3 4, THEN conjunct2] i4
    parseOBJ_mesh_invariant [of integer_parseFloat triangle_obj _ "''0''" 0 3 4, THEN conjunct2] i0
    parseOBJ_mesh_invariant [of integer_parseFloat triangle_obj _ "''-4''" "- 4" 3 4, THEN conjunct2] im
    p
  show ?thesis by simp
qed

end
